theory Spec2Isabelle
  imports Complex_Main
begin

section \<open>JavaScript numbers\<close>

text \<open>
  Every \<^verbatim>\<open>number\<close> of the TypeScript sources is an IEEE-754 binary64 value. A finite
  double is modelled by the rational it denotes, and every arithmetic operation of the
  source is the exact operation followed by rounding to the nearest double, ties to the
  value with an even significand (\<open>fl\<close>). The significand has 53 bits. The exponent range
  is not modelled (no overflow to Infinity, no subnormal numbers), and neither are NaN and
  the infinities.
\<close>

type_synonym number = rat

text \<open>The number of binary digits of a positive integer.\<close>

function bitlen :: "int \<Rightarrow> int" where
  "bitlen n = (if n \<le> 0 then 0 else 1 + bitlen (n div 2))"
  by pat_completeness auto
termination
  by (relation "measure nat") auto

declare bitlen.simps [simp del]

text \<open>\<open>ilog2 x\<close> is the binary exponent of a positive \<open>x\<close>: \<open>2 ^ ilog2 x \<le> x < 2 ^ (ilog2 x + 1)\<close>.\<close>

definition ilog2 :: "rat \<Rightarrow> int" where
  "ilog2 x = (if 1 \<le> x then bitlen \<lfloor>x\<rfloor> - 1
              else - bitlen (\<lceil>1 / x\<rceil> - 1))"

text \<open>Rounding to the nearest integer, ties to even.\<close>

definition rne :: "rat \<Rightarrow> int" where
  "rne x = (let f = \<lfloor>x\<rfloor>; d = x - of_int f
            in if d < 1 / 2 then f else if 1 / 2 < d then f + 1
               else if even f then f else f + 1)"

text \<open>Rounding a rational to the nearest double.\<close>

definition fl :: "rat \<Rightarrow> number" where
  "fl x = (if x = 0 then 0
           else let e = ilog2 \<bar>x\<bar> - 52
                in sgn x * of_int (rne (\<bar>x\<bar> / 2 powi e)) * 2 powi e)"

text \<open>The operators \<^verbatim>\<open>+\<close> and \<^verbatim>\<open>*\<close> of the source, and its literal \<^verbatim>\<open>0.1\<close>.\<close>

definition jadd :: "number \<Rightarrow> number \<Rightarrow> number" where
  "jadd a b = fl (a + b)"

definition jmul :: "number \<Rightarrow> number \<Rightarrow> number" where
  "jmul a b = fl (a * b)"

definition tenth :: number where
  "tenth = fl (1 / 10)"

text \<open>A number that is a whole number, and one that is a whole number below \<open>2 ^ 53\<close> and
  not negative (every such number is a double, and sums and products that stay in this
  range are computed without rounding).\<close>

definition is_integer :: "number \<Rightarrow> bool" where
  "is_integer x = (of_int \<lfloor>x\<rfloor> = x)"

definition safe_nat :: "number \<Rightarrow> bool" where
  "safe_nat x = (is_integer x \<and> 0 \<le> x \<and> x < 2 ^ 53)"


section \<open>The order router: \<^verbatim>\<open>src/server/api/routers/order.ts\<close>\<close>

subsection \<open>Data\<close>

text \<open>One element of the input's \<^verbatim>\<open>orderItems\<close> array, as the Zod schema types it:
  \<^verbatim>\<open>{ productId: string, quantity: number }\<close>. The schema has no price field.\<close>

record orderItemInput =
  in_productId :: string
  in_quantity :: number

text \<open>Modelled from the spec: the Prisma schema is not among the sources. The rows of the
  tables \<^verbatim>\<open>Product\<close>, \<^verbatim>\<open>Order\<close> and \<^verbatim>\<open>OrderItem\<close> carry the fields the spec's data
  model lists and the router reads or writes; \<^verbatim>\<open>createdAt\<close> plays no part and is left out.
  An order's status defaults to \<^verbatim>\<open>AWAITING_PAYMENT\<close> and its two external ids are optional
  and unset at creation. A row holds the JavaScript numbers that the Prisma client is
  handed. That the spec types the monetary fields as integers is not built into the
  rows: it is the predicate \<open>integerColumns\<close> below, on whether \<^verbatim>\<open>db.order.create\<close>
  accepts the totals of a call.\<close>

record Product =
  product_id :: string
  product_name :: string
  product_price :: number
  product_imageUrl :: string
  product_categoryId :: string

datatype OrderStatus = AWAITING_PAYMENT | OtherStatus string

record Order =
  order_id :: string
  order_subtotal :: number
  order_tax :: number
  order_grandTotal :: number
  order_status :: OrderStatus
  order_externalTransactionId :: "string option"
  order_paymentMethodId :: "string option"

record OrderItem =
  oi_orderId :: string
  oi_price :: number
  oi_productId :: string
  oi_quantity :: number

record database =
  product_table :: "Product list"
  order_table :: "Order list"
  orderItem_table :: "OrderItem list"

text \<open>The payment request that \<^verbatim>\<open>createQRIS\<close> resolves to, as far as the router reads
  it: \<^verbatim>\<open>paymentRequest.id\<close>, \<^verbatim>\<open>paymentRequest.paymentMethod.id\<close> and
  \<^verbatim>\<open>paymentRequest.paymentMethod.qrCode?.channelProperties!.qrString!\<close>.\<close>

record ChannelProperties =
  cp_qrString :: "string option"

record QrCode =
  qr_channelProperties :: "ChannelProperties option"

record PaymentMethod =
  pm_id :: string
  pm_qrCode :: "QrCode option"

record PaymentRequest =
  pr_id :: string
  pr_paymentMethod :: PaymentMethod

text \<open>What a call can throw: the guard of \<^verbatim>\<open>protectedProcedure\<close>, the input schema,
  a property read on \<^verbatim>\<open>undefined\<close>, the Prisma client, and \<^verbatim>\<open>createQRIS\<close>. The
  constructors say where an error arose; what of it reaches the caller is \<open>callerSees\<close>
  below.\<close>

datatype thrown =
    UNAUTHORIZED
  | ZodError
  | TypeError
  | PrismaError string
  | XenditError string

text \<open>The collaborators whose code is outside the sources are parameters of the model:
  whether each database call fails, the id the database gives the new order, and the
  function \<^verbatim>\<open>createQRIS\<close> of \<^verbatim>\<open>@/server/xendit\<close>.\<close>

record world =
  findMany_fault :: "string option"
  order_create_fault :: "string option"
  new_order_id :: string
  createMany_fault :: "string option"
  createQRIS :: "number \<Rightarrow> string \<Rightarrow> string + PaymentRequest"
  order_update_fault :: "string option"

record session =
  userId :: "string option"

text \<open>The object the mutation returns: \<^verbatim>\<open>{ order, newOrderItems, qrString }\<close>, where
  \<^verbatim>\<open>newOrderItems\<close> is the \<^verbatim>\<open>{ count }\<close> that \<^verbatim>\<open>createMany\<close> resolves to.\<close>

record response =
  res_order :: Order
  res_newOrderItems :: nat
  res_qrString :: "string option"

record totals =
  subtotal :: number
  tax :: number
  grandTotal :: number

subsection \<open>Operations\<close>

text \<open>\<^verbatim>\<open>if (!ctx.session.userId) throw new TRPCError({ code: "UNAUTHORIZED" })\<close>:
  \<^verbatim>\<open>null\<close> and the empty string are falsy.\<close>

definition authorised :: "session \<Rightarrow> bool" where
  "authorised s = (case userId s of None \<Rightarrow> False | Some u \<Rightarrow> u \<noteq> [])"

text \<open>The Zod schema, on an input that already has the schema's types:
  \<^verbatim>\<open>quantity: z.number().min(1)\<close> for every element of the array.\<close>

definition validInput :: "orderItemInput list \<Rightarrow> bool" where
  "validInput orderItems = list_all (\<lambda>item. 1 \<le> in_quantity item) orderItems"

text \<open>\<^verbatim>\<open>db.product.findMany({ where: { id: { in: orderItems.map((item) => item.productId) } } })\<close>\<close>

definition findMany :: "world \<Rightarrow> database \<Rightarrow> string list \<Rightarrow> thrown + Product list" where
  "findMany w db ids =
     (case findMany_fault w of
        Some e \<Rightarrow> Inl (PrismaError e)
      | None \<Rightarrow> Inr (filter (\<lambda>p. product_id p \<in> set ids) (product_table db)))"

text \<open>\<^verbatim>\<open>orderItems.find((item) => item.productId === product.id)!.quantity\<close>: reading
  \<^verbatim>\<open>quantity\<close> of \<^verbatim>\<open>undefined\<close> throws a TypeError.\<close>

definition findQuantity :: "orderItemInput list \<Rightarrow> Product \<Rightarrow> thrown + number" where
  "findQuantity orderItems product =
     (case find (\<lambda>item. in_productId item = product_id product) orderItems of
        None \<Rightarrow> Inl TypeError
      | Some item \<Rightarrow> Inr (in_quantity item))"

text \<open>The \<^verbatim>\<open>products.forEach\<close> loop that accumulates \<^verbatim>\<open>subtotal\<close>.\<close>

fun sumProducts :: "orderItemInput list \<Rightarrow> number \<Rightarrow> Product list \<Rightarrow> thrown + number" where
  "sumProducts orderItems acc [] = Inr acc"
| "sumProducts orderItems acc (product # rest) =
     (case findQuantity orderItems product of
        Inl e \<Rightarrow> Inl e
      | Inr productQuantity \<Rightarrow>
          (let totalPrice = jmul (product_price product) productQuantity
           in sumProducts orderItems (jadd acc totalPrice) rest))"

text \<open>Lines 73 to 89: \<^verbatim>\<open>subtotal\<close>, \<^verbatim>\<open>tax = subtotal * 0.1\<close> and
  \<^verbatim>\<open>grandTotal = subtotal + tax\<close>.\<close>

definition priceOrder :: "Product list \<Rightarrow> orderItemInput list \<Rightarrow> thrown + totals" where
  "priceOrder products orderItems =
     (case sumProducts orderItems 0 products of
        Inl e \<Rightarrow> Inl e
      | Inr s \<Rightarrow>
          (let t = jmul s tenth; g = jadd s t
           in Inr \<lparr>subtotal = s, tax = t, grandTotal = g\<rparr>))"

text \<open>The spec's words for the subtotal, in exact arithmetic:
  \<open>subtotal = \<Sum> (authoritative_price_i \<times> client_quantity_i)\<close> over the matched products,
  where the client quantity of a product is the quantity of the first submitted line
  with its id.\<close>

definition clientQuantity :: "orderItemInput list \<Rightarrow> string \<Rightarrow> rat" where
  "clientQuantity orderItems pid =
     (case find (\<lambda>item. in_productId item = pid) orderItems of
        None \<Rightarrow> 0
      | Some item \<Rightarrow> in_quantity item)"

definition exactSubtotal :: "Product list \<Rightarrow> orderItemInput list \<Rightarrow> rat" where
  "exactSubtotal products orderItems =
     (\<Sum>product\<leftarrow>products. product_price product * clientQuantity orderItems (product_id product))"

text \<open>The products a request matches: the rows of the catalog whose id is the
  \<^verbatim>\<open>productId\<close> of a submitted line.\<close>

definition matchedProducts :: "database \<Rightarrow> orderItemInput list \<Rightarrow> Product list" where
  "matchedProducts db orderItems =
     filter (\<lambda>p. product_id p \<in> set (map in_productId orderItems)) (product_table db)"

text \<open>\<^verbatim>\<open>db.order.create({ data: { grandTotal, subtotal, tax } })\<close> resolves to the new row.
  The id is the table's primary key: a row whose id is already taken is refused.\<close>

definition order_create :: "world \<Rightarrow> totals \<Rightarrow> database \<Rightarrow> thrown + Order \<times> database" where
  "order_create w t db =
     (case order_create_fault w of
        Some e \<Rightarrow> Inl (PrismaError e)
      | None \<Rightarrow>
          (if new_order_id w \<in> set (map order_id (order_table db))
           then Inl (PrismaError ''UniqueConstraint'')
           else
             (let order = \<lparr>order_id = new_order_id w, order_subtotal = subtotal t,
                    order_tax = tax t, order_grandTotal = grandTotal t,
                    order_status = AWAITING_PAYMENT, order_externalTransactionId = None,
                    order_paymentMethodId = None\<rparr>
              in Inr (order, db\<lparr>order_table := order_table db @ [order]\<rparr>))))"

text \<open>The argument of \<^verbatim>\<open>createMany\<close>: \<^verbatim>\<open>products.map((product) => ...)\<close>.\<close>

fun orderItemData :: "orderItemInput list \<Rightarrow> string \<Rightarrow> Product list \<Rightarrow> thrown + OrderItem list" where
  "orderItemData orderItems oid [] = Inr []"
| "orderItemData orderItems oid (product # rest) =
     (case findQuantity orderItems product of
        Inl e \<Rightarrow> Inl e
      | Inr productQuantity \<Rightarrow>
          (case orderItemData orderItems oid rest of
             Inl e \<Rightarrow> Inl e
           | Inr items \<Rightarrow>
               Inr (\<lparr>oi_orderId = oid, oi_price = product_price product,
                      oi_productId = product_id product,
                      oi_quantity = productQuantity\<rparr> # items)))"

text \<open>\<^verbatim>\<open>db.orderItem.createMany({ data })\<close>: one insert of all rows, resolving to their count.\<close>

definition orderItem_createMany :: "world \<Rightarrow> OrderItem list \<Rightarrow> database \<Rightarrow> thrown + nat \<times> database" where
  "orderItem_createMany w items db =
     (case createMany_fault w of
        Some e \<Rightarrow> Inl (PrismaError e)
      | None \<Rightarrow> Inr (length items, db\<lparr>orderItem_table := orderItem_table db @ items\<rparr>))"

text \<open>\<^verbatim>\<open>db.order.update({ where: { id }, data: { externalTransactionId, paymentMethodId } })\<close>;
  Prisma throws when no row has the id.\<close>

definition order_update :: "world \<Rightarrow> string \<Rightarrow> string \<Rightarrow> string \<Rightarrow> database \<Rightarrow> thrown + database" where
  "order_update w oid ext pm db =
     (case order_update_fault w of
        Some e \<Rightarrow> Inl (PrismaError e)
      | None \<Rightarrow>
          (if oid \<in> set (map order_id (order_table db))
           then Inr (db\<lparr>order_table :=
                  map (\<lambda>row. if order_id row = oid
                         then row\<lparr>order_externalTransactionId := Some ext,
                                  order_paymentMethodId := Some pm\<rparr>
                         else row) (order_table db)\<rparr>)
           else Inl (PrismaError ''RecordNotFound'')))"

text \<open>\<^verbatim>\<open>paymentRequest.paymentMethod.qrCode?.channelProperties!.qrString!\<close>: the optional
  chain gives \<^verbatim>\<open>undefined\<close> when there is no \<^verbatim>\<open>qrCode\<close>; the two \<^verbatim>\<open>!\<close> are erased by
  the compiler, so a \<^verbatim>\<open>qrCode\<close> without \<^verbatim>\<open>channelProperties\<close> throws a TypeError.\<close>

definition qrStringOf :: "PaymentRequest \<Rightarrow> thrown + string option" where
  "qrStringOf paymentRequest =
     (case pm_qrCode (pr_paymentMethod paymentRequest) of
        None \<Rightarrow> Inr None
      | Some qr \<Rightarrow>
          (case qr_channelProperties qr of
             None \<Rightarrow> Inl TypeError
           | Some cp \<Rightarrow> Inr (cp_qrString cp)))"

text \<open>The mutation \<^verbatim>\<open>createOrder\<close>, behind \<^verbatim>\<open>protectedProcedure\<close> and its input schema.
  It returns what the caller receives and the database the call leaves behind.\<close>

definition createOrder ::
    "world \<Rightarrow> session \<Rightarrow> orderItemInput list \<Rightarrow> database \<Rightarrow> (thrown + response) \<times> database" where
  "createOrder w s orderItems db =
     (if \<not> authorised s then (Inl UNAUTHORIZED, db)
      else if \<not> validInput orderItems then (Inl ZodError, db)
      else case findMany w db (map in_productId orderItems) of
        Inl e \<Rightarrow> (Inl e, db)
      | Inr products \<Rightarrow>
      (case priceOrder products orderItems of
        Inl e \<Rightarrow> (Inl e, db)
      | Inr t \<Rightarrow>
      (case order_create w t db of
        Inl e \<Rightarrow> (Inl e, db)
      | Inr (order, db1) \<Rightarrow>
      (case orderItemData orderItems (order_id order) products of
        Inl e \<Rightarrow> (Inl e, db1)
      | Inr items \<Rightarrow>
      (case orderItem_createMany w items db1 of
        Inl e \<Rightarrow> (Inl e, db1)
      | Inr (newOrderItems, db2) \<Rightarrow>
      (case createQRIS w (grandTotal t) (order_id order) of
        Inl e \<Rightarrow> (Inl (XenditError e), db2)
      | Inr paymentRequest \<Rightarrow>
      (case order_update w (order_id order) (pr_id paymentRequest)
              (pm_id (pr_paymentMethod paymentRequest)) db2 of
        Inl e \<Rightarrow> (Inl e, db2)
      | Inr db3 \<Rightarrow>
      (case qrStringOf paymentRequest of
        Inl e \<Rightarrow> (Inl e, db3)
      | Inr qr \<Rightarrow>
          (Inr \<lparr>res_order = order, res_newOrderItems = newOrderItems,
                res_qrString = qr\<rparr>, db3)))))))))"


subsection \<open>Closed forms\<close>

text \<open>The values the steps of \<open>createOrder\<close> compute when nothing throws, written without
  the error plumbing: the accumulated subtotal, the three totals, the row that
  \<^verbatim>\<open>db.order.create\<close> inserts, the row of one product handed to \<^verbatim>\<open>createMany\<close>, and
  the order row after \<^verbatim>\<open>db.order.update\<close>. The lemmas below show that they are what
  the operations return.\<close>

definition subtotalOf :: "orderItemInput list \<Rightarrow> number \<Rightarrow> Product list \<Rightarrow> number" where
  "subtotalOf orderItems acc products =
     foldl (\<lambda>a product. jadd a (jmul (product_price product)
                               (clientQuantity orderItems (product_id product)))) acc products"

definition totalsOf :: "orderItemInput list \<Rightarrow> Product list \<Rightarrow> totals" where
  "totalsOf orderItems products =
     (let s = subtotalOf orderItems 0 products; t = jmul s tenth
      in \<lparr>subtotal = s, tax = t, grandTotal = jadd s t\<rparr>)"

definition newOrder :: "world \<Rightarrow> totals \<Rightarrow> Order" where
  "newOrder w t =
     \<lparr>order_id = new_order_id w, order_subtotal = subtotal t, order_tax = tax t,
      order_grandTotal = grandTotal t, order_status = AWAITING_PAYMENT,
      order_externalTransactionId = None, order_paymentMethodId = None\<rparr>"

definition newOrderItem :: "orderItemInput list \<Rightarrow> string \<Rightarrow> Product \<Rightarrow> OrderItem" where
  "newOrderItem orderItems oid product =
     \<lparr>oi_orderId = oid, oi_price = product_price product, oi_productId = product_id product,
      oi_quantity = clientQuantity orderItems (product_id product)\<rparr>"

definition paidOrder :: "Order \<Rightarrow> PaymentRequest \<Rightarrow> Order" where
  "paidOrder row paymentRequest =
     row\<lparr>order_externalTransactionId := Some (pr_id paymentRequest),
         order_paymentMethodId := Some (pm_id (pr_paymentMethod paymentRequest))\<rparr>"

subsection \<open>What the caller receives\<close>

text \<open>The constructors of \<open>thrown\<close> record where an error arose; they are not part of
  what the caller sees. tRPC passes the guard's \<^verbatim>\<open>TRPCError\<close> on as it is, reports an
  input that fails the schema as \<^verbatim>\<open>BAD_REQUEST\<close>, and wraps whatever else the mutation
  throws in a \<^verbatim>\<open>TRPCError\<close> with the code \<^verbatim>\<open>INTERNAL_SERVER_ERROR\<close> and the message of
  the thrown error; \<open>createOrder\<close> catches nothing, and the error formatter of the router
  adds only the flattened Zod error. A failure of the database and a failure of the
  payment gateway therefore reach the caller with the same code.\<close>

datatype trpcCode = CODE_UNAUTHORIZED | CODE_BAD_REQUEST | CODE_INTERNAL_SERVER_ERROR

definition surfaced :: "thrown \<Rightarrow> trpcCode \<times> string" where
  "surfaced e =
     (case e of
        UNAUTHORIZED \<Rightarrow> (CODE_UNAUTHORIZED, ''UNAUTHORIZED'')
      | ZodError \<Rightarrow> (CODE_BAD_REQUEST, ''ZodError'')
      | TypeError \<Rightarrow> (CODE_INTERNAL_SERVER_ERROR, ''TypeError'')
      | PrismaError message \<Rightarrow> (CODE_INTERNAL_SERVER_ERROR, message)
      | XenditError message \<Rightarrow> (CODE_INTERNAL_SERVER_ERROR, message))"

definition callerSees :: "thrown + response \<Rightarrow> (trpcCode \<times> string) + response" where
  "callerSees r = (case r of Inl e \<Rightarrow> Inl (surfaced e) | Inr v \<Rightarrow> Inr v)"

subsection \<open>The columns of the Order table\<close>



section \<open>The cart store: \<^verbatim>\<open>src/store/cart.ts\<close>\<close>

subsection \<open>Data\<close>

text \<open>\<^verbatim>\<open>type AddToCartItem = Omit<CartItem, "quantity">\<close>: a cart item is an
  \<^verbatim>\<open>AddToCartItem\<close> with a \<^verbatim>\<open>quantity\<close>.\<close>

record AddToCartItem =
  cart_productId :: string
  cart_name :: string
  cart_price :: number
  cart_imageUrl :: string

record CartItem = AddToCartItem +
  cart_quantity :: number

text \<open>JavaScript arrays and objects are held by reference, and \<^verbatim>\<open>addToCart\<close> copies the
  array but not the objects in it. The model therefore has an explicit heap: a reference
  is an index into the list of all cart item objects, or into the list of all arrays, and
  allocation appends. An array is the list of the references to its elements. The store's
  state holds the reference of its \<^verbatim>\<open>items\<close> array.\<close>

type_synonym ref = nat

record heap =
  objects :: "CartItem list"
  arrays :: "ref list list"

record CartState =
  items :: ref

subsection \<open>Operations\<close>

text \<open>\<^verbatim>\<open>Array.prototype.findIndex\<close>: the first index whose element satisfies the
  predicate, or \<open>-1\<close>.\<close>

fun findIndex :: "('a \<Rightarrow> bool) \<Rightarrow> 'a list \<Rightarrow> int" where
  "findIndex P [] = - 1"
| "findIndex P (x # xs) =
     (if P x then 0
      else (let i = findIndex P xs in if i = - 1 then - 1 else i + 1))"

text \<open>Reading an array and an object through their references. A reference that was
  never allocated cannot arise in the source; the reads give the empty array and
  \<open>None\<close> there.\<close>

definition readArray :: "heap \<Rightarrow> ref \<Rightarrow> ref list" where
  "readArray h a = (if a < length (arrays h) then arrays h ! a else [])"

definition readObject :: "heap \<Rightarrow> ref \<Rightarrow> CartItem option" where
  "readObject h r = (if r < length (objects h) then Some (objects h ! r) else None)"

text \<open>The callback of \<^verbatim>\<open>findIndex\<close>: \<^verbatim>\<open>(item) => item.productId === newItem.productId\<close>.\<close>

definition sameProduct :: "heap \<Rightarrow> AddToCartItem \<Rightarrow> ref \<Rightarrow> bool" where
  "sameProduct h newItem r =
     (case readObject h r of
        None \<Rightarrow> False
      | Some item \<Rightarrow> cart_productId item = cart_productId newItem)"

text \<open>The action \<^verbatim>\<open>addToCart\<close>, that is the function it hands to Zustand's \<^verbatim>\<open>set\<close>,
  whose result \<^verbatim>\<open>set\<close> makes the store's new state. It returns the heap after the call
  and the new state.\<close>

definition addToCart :: "AddToCartItem \<Rightarrow> heap \<times> CartState \<Rightarrow> heap \<times> CartState" where
  "addToCart newItem hs =
     (let h = fst hs; currentState = snd hs;
          \<comment> \<open>\<^verbatim>\<open>const duplicateItems = [...currentState.items]\<close>\<close>
          duplicateItems = length (arrays h);
          h1 = h\<lparr>arrays := arrays h @ [readArray h (items currentState)]\<rparr>;
          existingItemIndex = findIndex (sameProduct h1 newItem) (readArray h1 duplicateItems)
      in if existingItemIndex = - 1 then
           \<comment> \<open>\<^verbatim>\<open>duplicateItems.push({ ...newItem, quantity: 1 })\<close>\<close>
           (let r = length (objects h1);
                h2 = h1\<lparr>objects := objects h1 @
                       [\<lparr>cart_productId = cart_productId newItem, cart_name = cart_name newItem,
                         cart_price = cart_price newItem, cart_imageUrl = cart_imageUrl newItem,
                         cart_quantity = 1\<rparr>]\<rparr>;
                h3 = h2\<lparr>arrays := (arrays h2)[duplicateItems := readArray h2 duplicateItems @ [r]]\<rparr>
            in (h3, currentState\<lparr>items := duplicateItems\<rparr>))
         else if nat existingItemIndex < length (readArray h1 duplicateItems) then
           \<comment> \<open>\<^verbatim>\<open>const itemToUpdate = duplicateItems[existingItemIndex]\<close>\<close>
           (let itemToUpdate = readArray h1 duplicateItems ! nat existingItemIndex
            in case readObject h1 itemToUpdate of
                 None \<Rightarrow> (h1, currentState)
               | Some item \<Rightarrow>
                   \<comment> \<open>\<^verbatim>\<open>itemToUpdate.quantity += 1\<close>\<close>
                   (h1\<lparr>objects := (objects h1)[itemToUpdate :=
                          item\<lparr>cart_quantity := jadd (cart_quantity item) 1\<rparr>]\<rparr>,
                    currentState\<lparr>items := duplicateItems\<rparr>))
         else
           \<comment> \<open>\<^verbatim>\<open>if (!itemToUpdate) return { ...currentState }\<close>\<close>
           (h1, currentState))"

text \<open>What a holder of a state sees in a heap: the cart items of its \<^verbatim>\<open>items\<close> array.\<close>

definition cartLines :: "heap \<Rightarrow> CartState \<Rightarrow> CartItem list" where
  "cartLines h s = List.map_filter (readObject h) (readArray h (items s))"

text \<open>A state is well formed in a heap when its array and the elements of the array
  are allocated.\<close>

definition wellFormed :: "heap \<Rightarrow> CartState \<Rightarrow> bool" where
  "wellFormed h s =
     (items s < length (arrays h) \<and> list_all (\<lambda>r. r < length (objects h)) (arrays h ! items s))"

text \<open>The invariant of the cart: at most one line for each \<^verbatim>\<open>productId\<close>.\<close>

definition oneLinePerProduct :: "CartItem list \<Rightarrow> bool" where
  "oneLinePerProduct ls = distinct (map cart_productId ls)"

subsection \<open>The spec's words\<close>

text \<open>The spec's description of \<^verbatim>\<open>addToCart\<close>, on the list of cart lines: if no
  existing line shares the \<^verbatim>\<open>productId\<close>, append a new line with quantity 1; else
  increment the matching line's quantity by 1. The increment is a parameter of
  \<open>addLineWith\<close>: \<open>addLine\<close> increments in exact arithmetic, as the spec's words say, and
  the source increments with the addition of doubles.\<close>

definition newLine :: "AddToCartItem \<Rightarrow> CartItem" where
  "newLine newItem =
     \<lparr>cart_productId = cart_productId newItem, cart_name = cart_name newItem,
      cart_price = cart_price newItem, cart_imageUrl = cart_imageUrl newItem,
      cart_quantity = 1\<rparr>"

fun addLineWith :: "(number \<Rightarrow> number) \<Rightarrow> AddToCartItem \<Rightarrow> CartItem list \<Rightarrow> CartItem list" where
  "addLineWith inc newItem [] = [newLine newItem]"
| "addLineWith inc newItem (l # ls) =
     (if cart_productId l = cart_productId newItem
      then l\<lparr>cart_quantity := inc (cart_quantity l)\<rparr> # ls
      else l # addLineWith inc newItem ls)"

definition addLine :: "AddToCartItem \<Rightarrow> CartItem list \<Rightarrow> CartItem list" where
  "addLine newItem ls = addLineWith (\<lambda>q. q + 1) newItem ls"


section \<open>Concrete inputs\<close>

text \<open>A catalog of three products, a request for two of them, and the empty database
  with that catalog: the inputs at which the theorems below are evaluated.\<close>

definition demoProduct :: "string \<Rightarrow> number \<Rightarrow> Product" where
  "demoProduct pid p =
     \<lparr>product_id = pid, product_name = ''item'', product_price = p,
      product_imageUrl = ''https://img.example/x.jpeg'', product_categoryId = ''cat-1''\<rparr>"

definition demoCatalog :: "Product list" where
  "demoCatalog = [demoProduct ''A'' 10000, demoProduct ''B'' 5000, demoProduct ''C'' 1001]"

definition demoDb :: database where
  "demoDb = \<lparr>product_table = demoCatalog, order_table = [], orderItem_table = []\<rparr>"

definition demoItems :: "orderItemInput list" where
  "demoItems = [\<lparr>in_productId = ''A'', in_quantity = 2\<rparr>, \<lparr>in_productId = ''B'', in_quantity = 1\<rparr>]"

definition demoPayment :: PaymentRequest where
  "demoPayment =
     \<lparr>pr_id = ''pr-1'',
      pr_paymentMethod =
        \<lparr>pm_id = ''pm-1'',
         pm_qrCode = Some \<lparr>qr_channelProperties = Some \<lparr>cp_qrString = Some ''00020101021226''\<rparr>\<rparr>\<rparr>\<rparr>"

definition demoWorld :: world where
  "demoWorld =
     \<lparr>findMany_fault = None, order_create_fault = None, new_order_id = ''order-1'',
      createMany_fault = None, createQRIS = (\<lambda>amount orderId. Inr demoPayment),
      order_update_fault = None\<rparr>"

definition demoSession :: session where
  "demoSession = \<lparr>userId = Some ''user-1''\<rparr>"

text \<open>The same world with a database that refuses the insert of the order items, with a
  payment gateway that is down, and the latter with another order id.\<close>

definition itemFaultWorld :: world where
  "itemFaultWorld = demoWorld\<lparr>createMany_fault := Some ''insert failed''\<rparr>"

definition gatewayDownWorld :: world where
  "gatewayDownWorld = demoWorld\<lparr>createQRIS := (\<lambda>amount orderId. Inl ''gateway timeout'')\<rparr>"

definition gatewayDownWorld2 :: world where
  "gatewayDownWorld2 = gatewayDownWorld\<lparr>new_order_id := ''order-2''\<rparr>"

text \<open>The request \<open>demoItems\<close> with one more line, for a product that is not in the catalog.\<close>

definition bogusItems :: "orderItemInput list" where
  "bogusItems = demoItems @ [\<lparr>in_productId = ''no-such-product'', in_quantity = 3\<rparr>]"

text \<open>A product to add, the store's initial state (an empty \<^verbatim>\<open>items\<close> array), and a
  state whose cart holds one line of that product.\<close>

definition cola :: AddToCartItem where
  "cola = \<lparr>cart_productId = ''A'', cart_name = ''Cola'', cart_price = 10000,
            cart_imageUrl = ''https://img.example/a.jpeg''\<rparr>"

definition emptyHeap :: heap where
  "emptyHeap = \<lparr>objects = [], arrays = [[]]\<rparr>"

definition emptyCart :: CartState where
  "emptyCart = \<lparr>items = 0\<rparr>"

definition oneColaHeap :: heap where
  "oneColaHeap = \<lparr>objects = [newLine cola], arrays = [[0]]\<rparr>"

definition oneColaCart :: CartState where
  "oneColaCart = \<lparr>items = 0\<rparr>"

text \<open>A catalog with one product of price 3000 and a request for
  \<open>1.3333333333333333\<close> units of it (the double \<open>6004799503160661 / 2 ^ 52\<close>), which
  the input schema accepts.\<close>

definition thirdsDb :: database where
  "thirdsDb = \<lparr>product_table = [demoProduct ''D'' 3000], order_table = [], orderItem_table = []\<rparr>"

definition thirdsItems :: "orderItemInput list" where
  "thirdsItems = [\<lparr>in_productId = ''D'', in_quantity = 6004799503160661 / 4503599627370496\<rparr>]"


section \<open>Arithmetic of doubles on whole numbers\<close>

lemma bitlen_nonneg: "0 \<le> bitlen n"
proof (induction n rule: bitlen.induct)
  case (1 n)
  show ?case
  proof (cases "n \<le> 0")
    case True
    then show ?thesis by (simp add: bitlen.simps)
  next
    case False
    with 1 have "0 \<le> bitlen (n div 2)" by simp
    with False show ?thesis by (subst bitlen.simps) simp
  qed
qed

lemma bitlen_bounds:
  "0 < n \<Longrightarrow> 1 \<le> bitlen n \<and> 2 ^ nat (bitlen n - 1) \<le> n \<and> n < 2 ^ nat (bitlen n)"
proof (induction n rule: bitlen.induct)
  case (1 n)
  show ?case
  proof (cases "n = 1")
    case True
    have "bitlen 1 = 1" by (simp add: bitlen.simps)
    with True show ?thesis by simp
  next
    case False
    with 1(2) have pos: "0 < n div 2" by simp
    have b: "bitlen n = 1 + bitlen (n div 2)"
      using 1(2) by (subst bitlen.simps) simp
    from 1(1) pos 1(2) have ih: "1 \<le> bitlen (n div 2)"
      "2 ^ nat (bitlen (n div 2) - 1) \<le> n div 2" "n div 2 < 2 ^ nat (bitlen (n div 2))"
      by simp_all
    define k where "k = nat (bitlen (n div 2) - 1)"
    have k1: "nat (bitlen (n div 2)) = Suc k" using ih(1) by (simp add: k_def)
    have k2: "nat (1 + bitlen (n div 2)) = Suc (Suc k)" using ih(1) by (simp add: k_def)
    have k3: "nat (1 + bitlen (n div 2) - 1) = Suc k" using ih(1) by (simp add: k_def)
    have lo: "(2::int) ^ k \<le> n div 2" using ih(2) by (simp add: k_def)
    have hi: "n div 2 < 2 * (2::int) ^ k" using ih(3) by (simp add: k1)
    have "2 * (n div 2) \<le> n" by simp
    moreover have "n < 2 * (n div 2 + 1)" by presburger
    ultimately have "2 * 2 ^ k \<le> n" "n < 2 * (2 * 2 ^ k)" using lo hi by linarith+
    then show ?thesis using ih(1) by (simp add: b k1 k2)
  qed
qed


lemma rne_near:
  assumes "0 \<le> d" "d < 1 / 2"
  shows "rne (of_int m + d) = m"
proof -
  have f: "\<lfloor>of_int m + d\<rfloor> = m"
    using assms by (intro floor_unique) auto
  show ?thesis using assms by (simp add: rne_def f Let_def)
qed

lemma fl_near:
  fixes k :: int and d :: rat
  assumes k: "0 < k" "k < 2 ^ 53"
    and d: "0 \<le> d" "d * 2 ^ nat (53 - bitlen k) < 1 / 2"
  shows "fl (of_int k + d) = of_int k"
proof -
  define b where "b = bitlen k"
  define n where "n = nat (53 - b)"
  from bitlen_bounds [OF k(1)]
  have b1: "1 \<le> b" and lo: "2 ^ nat (b - 1) \<le> k" and hi: "k < 2 ^ nat b"
    by (simp_all add: b_def)
  have "(2::int) ^ nat (b - 1) < 2 ^ 53" using lo k(2) by linarith
  then have "nat (b - 1) < 53" by (simp only: power_strict_increasing_iff) 
  then have b53: "b \<le> 53" by linarith
  have en: "b - 53 = - int n" using b53 by (simp add: n_def)
  have p1: "(1::rat) \<le> 2 ^ n" by simp
  have "d * 1 \<le> d * 2 ^ n" using d(1) p1 by (intro mult_left_mono) auto
  then have dhalf: "d < 1 / 2" using d(2) by (simp add: n_def b_def)
  define x where "x = rat_of_int k + d"
  have x1: "1 \<le> x" using k(1) d(1) by (simp add: x_def)
  have fx: "\<lfloor>x\<rfloor> = k"
    unfolding x_def using d(1) dhalf by (intro floor_unique) auto
  have il: "ilog2 x - 52 = - int n"
    using x1 en by (simp add: ilog2_def fx b_def)
  have sc: "x / 2 powi (- int n) = of_int (k * 2 ^ n) + d * 2 ^ n"
    by (simp add: power_int_minus x_def field_simps)
  have r: "rne (x / 2 powi (- int n)) = k * 2 ^ n"
    unfolding sc using d by (intro rne_near) (simp_all add: n_def b_def)
  have "fl x = of_int (k * 2 ^ n) * 2 powi (- int n)"
    using x1 by (simp add: fl_def il r Let_def del: of_int_mult of_int_power)
  also have "\<dots> = of_int k" by (simp add: power_int_minus)
  finally show ?thesis by (simp add: x_def)
qed

lemma fl_of_int:
  assumes "0 \<le> k" "k < 2 ^ 53"
  shows "fl (of_int k) = of_int k"
proof (cases "k = 0")
  case True
  then show ?thesis by (simp add: fl_def)
next
  case False
  with assms have "0 < k" by simp
  from fl_near [OF this assms(2), of 0] show ?thesis by simp
qed

lemma tenth_value: "tenth = 3602879701896397 / 36028797018963968"
  unfolding tenth_def by code_simp

lemma is_integerE: "is_integer x \<Longrightarrow> x = of_int \<lfloor>x\<rfloor>"
  unfolding is_integer_def by (rule sym)

lemma is_integer_of_int [simp]: "is_integer (of_int k)"
  unfolding is_integer_def by simp

lemma is_integer_add: "is_integer a \<Longrightarrow> is_integer b \<Longrightarrow> is_integer (a + b)"
  by (metis is_integerE is_integer_of_int of_int_add)

lemma is_integer_mult: "is_integer a \<Longrightarrow> is_integer b \<Longrightarrow> is_integer (a * b)"
  by (metis is_integerE is_integer_of_int of_int_mult)

lemma fl_exact:
  assumes "is_integer x" "0 \<le> x" "x < 2 ^ 53"
  shows "fl x = x"
proof -
  from assms(1) have x: "x = of_int \<lfloor>x\<rfloor>" by (rule is_integerE)
  have "0 \<le> \<lfloor>x\<rfloor>" using assms(2) by simp
  moreover have "\<lfloor>x\<rfloor> < 2 ^ 53" using assms(3) by (simp add: floor_less_iff)
  ultimately have "fl (of_int \<lfloor>x\<rfloor>) = of_int \<lfloor>x\<rfloor>" by (rule fl_of_int)
  with x show ?thesis by simp
qed

lemma jadd_exact:
  "is_integer a \<Longrightarrow> is_integer b \<Longrightarrow> 0 \<le> a + b \<Longrightarrow> a + b < 2 ^ 53 \<Longrightarrow> jadd a b = a + b"
  unfolding jadd_def by (intro fl_exact is_integer_add)

lemma jmul_exact:
  "is_integer a \<Longrightarrow> is_integer b \<Longrightarrow> 0 \<le> a * b \<Longrightarrow> a * b < 2 ^ 53 \<Longrightarrow> jmul a b = a * b"
  unfolding jmul_def by (intro fl_exact is_integer_mult)

lemma jmul_tenth:
  fixes m :: int
  assumes "0 \<le> m" "m < 2 ^ 53"
  shows "jmul (of_int (10 * m)) tenth = of_int m"
proof (cases "m = 0")
  case True
  then show ?thesis by (simp add: jmul_def fl_def)
next
  case False
  with assms have pos: "0 < m" by simp
  define n where "n = nat (53 - bitlen m)"
  from bitlen_bounds [OF pos] have b1: "1 \<le> bitlen m" and hi: "m < 2 ^ nat (bitlen m)"
    by simp_all
  from bitlen_bounds [OF pos] assms(2) have "(2::int) ^ nat (bitlen m - 1) < 2 ^ 53" by linarith
  then have "nat (bitlen m - 1) < 53" by (simp only: power_strict_increasing_iff)
  then have b53: "bitlen m \<le> 53" by linarith
  have nb: "n + nat (bitlen m) = 53" using b1 b53 by (simp add: n_def)
  have "m * 2 ^ n < 2 ^ nat (bitlen m) * 2 ^ n" using hi by simp
  also have "\<dots> = 2 ^ 53" using nb by (simp flip: power_add add: add.commute)
  finally have "rat_of_int (m * 2 ^ n) < rat_of_int (2 ^ 53)" by (simp only: of_int_less_iff)
  then have small: "rat_of_int m / 2 ^ 54 * 2 ^ n < 1 / 2" by simp
  have eq: "rat_of_int (10 * m) * tenth = of_int m + of_int m / 2 ^ 54"
    by (simp add: tenth_value field_simps)
  have "fl (of_int m + of_int m / 2 ^ 54) = of_int m"
    using pos assms(2) small by (intro fl_near) (simp_all add: n_def)
  then show ?thesis by (simp only: jmul_def eq)
qed








section \<open>The steps of \<open>createOrder\<close>\<close>

lemma findQuantity_matched:
  assumes "product_id p \<in> set (map in_productId orderItems)"
  shows "findQuantity orderItems p = Inr (clientQuantity orderItems (product_id p))"
proof -
  from assms obtain item where "find (\<lambda>item. in_productId item = product_id p) orderItems = Some item"
    by (cases "find (\<lambda>item. in_productId item = product_id p) orderItems")
       (auto simp: find_None_iff)
  then show ?thesis by (simp add: findQuantity_def clientQuantity_def)
qed

lemma sumProducts_matched:
  assumes "\<forall>p \<in> set ps. product_id p \<in> set (map in_productId orderItems)"
  shows "sumProducts orderItems acc ps = Inr (subtotalOf orderItems acc ps)"
  using assms
proof (induction ps arbitrary: acc)
  case Nil
  show ?case by (simp add: subtotalOf_def)
next
  case (Cons p ps)
  from Cons.prems have q: "findQuantity orderItems p = Inr (clientQuantity orderItems (product_id p))"
    by (intro findQuantity_matched) simp
  from Cons.prems have "\<forall>p \<in> set ps. product_id p \<in> set (map in_productId orderItems)" by simp
  from Cons.IH [OF this] show ?case by (simp add: q subtotalOf_def)
qed

lemma matchedProducts_ids:
  "\<forall>p \<in> set (matchedProducts db orderItems). product_id p \<in> set (map in_productId orderItems)"
  by (simp add: matchedProducts_def)

lemma priceOrder_matched:
  "priceOrder (matchedProducts db orderItems) orderItems =
     Inr (totalsOf orderItems (matchedProducts db orderItems))"
  by (simp add: priceOrder_def sumProducts_matched [OF matchedProducts_ids] totalsOf_def Let_def)

lemma orderItemData_matched:
  assumes "\<forall>p \<in> set ps. product_id p \<in> set (map in_productId orderItems)"
  shows "orderItemData orderItems oid ps = Inr (map (newOrderItem orderItems oid) ps)"
  using assms
proof (induction ps)
  case Nil
  show ?case by simp
next
  case (Cons p ps)
  from Cons.prems have q: "findQuantity orderItems p = Inr (clientQuantity orderItems (product_id p))"
    by (intro findQuantity_matched) simp
  from Cons show ?case by (simp add: q newOrderItem_def)
qed

lemma order_update_fresh:
  assumes "oid \<notin> set (map order_id rows)"
  shows "map (\<lambda>r. if order_id r = oid then f r else r) rows = rows"
  using assms by (induction rows) auto

lemma createOrder_unfold:
  "createOrder w s orderItems db =
    (let products = matchedProducts db orderItems;
         t = totalsOf orderItems products;
         row = newOrder w t;
         its = map (newOrderItem orderItems (new_order_id w)) products;
         db1 = db\<lparr>order_table := order_table db @ [row]\<rparr>;
         db2 = db1\<lparr>orderItem_table := orderItem_table db @ its\<rparr>
     in if \<not> authorised s then (Inl UNAUTHORIZED, db)
        else if \<not> validInput orderItems then (Inl ZodError, db)
        else case findMany_fault w of Some e \<Rightarrow> (Inl (PrismaError e), db) | None \<Rightarrow>
        (case order_create_fault w of Some e \<Rightarrow> (Inl (PrismaError e), db) | None \<Rightarrow>
        (if new_order_id w \<in> set (map order_id (order_table db))
         then (Inl (PrismaError ''UniqueConstraint''), db)
         else case createMany_fault w of Some e \<Rightarrow> (Inl (PrismaError e), db1) | None \<Rightarrow>
        (case createQRIS w (grandTotal t) (new_order_id w) of
           Inl e \<Rightarrow> (Inl (XenditError e), db2)
         | Inr paymentRequest \<Rightarrow>
        (case order_update_fault w of Some e \<Rightarrow> (Inl (PrismaError e), db2) | None \<Rightarrow>
        (let db3 = db2\<lparr>order_table := order_table db @ [paidOrder row paymentRequest]\<rparr>
         in case qrStringOf paymentRequest of
              Inl e \<Rightarrow> (Inl e, db3)
            | Inr qr \<Rightarrow> (Inr \<lparr>res_order = row, res_newOrderItems = length its,
                               res_qrString = qr\<rparr>, db3)))))))"
proof -
  have fm: "findMany w db (map in_productId orderItems) = Inr (matchedProducts db orderItems)"
    if "findMany_fault w = None"
    using that by (simp add: findMany_def matchedProducts_def)
  have oid: "orderItemData orderItems oid (matchedProducts db orderItems) =
      Inr (map (newOrderItem orderItems oid) (matchedProducts db orderItems))" for oid
    by (rule orderItemData_matched [OF matchedProducts_ids])
  have idn: "order_id (newOrder w t) = new_order_id w" for t by (simp add: newOrder_def)
  consider (a) "\<not> authorised s" | (b) "authorised s" "\<not> validInput orderItems"
    | (c) e where "authorised s" "validInput orderItems" "findMany_fault w = Some e"
    | (d) e where "authorised s" "validInput orderItems" "findMany_fault w = None"
        "order_create_fault w = Some e"
    | (e) "authorised s" "validInput orderItems" "findMany_fault w = None"
        "order_create_fault w = None" "new_order_id w \<in> set (map order_id (order_table db))"
    | (f) "authorised s" "validInput orderItems" "findMany_fault w = None"
        "order_create_fault w = None" "new_order_id w \<notin> set (map order_id (order_table db))"
    by (cases "findMany_fault w"; cases "order_create_fault w") auto
  then show ?thesis
  proof cases
    case a
    then show ?thesis by (simp add: createOrder_def Let_def)
  next
    case b
    then show ?thesis by (simp add: createOrder_def Let_def)
  next
    case c
    then show ?thesis by (simp add: createOrder_def Let_def findMany_def)
  next
    case d
    then show ?thesis
      by (simp add: createOrder_def Let_def fm priceOrder_matched order_create_def)
  next
    case e
    then show ?thesis
      by (simp add: createOrder_def Let_def fm priceOrder_matched order_create_def)
  next
    case f
    note fresh = f(5)
    have ou: "order_update w (new_order_id w) a b
           (db\<lparr>order_table := order_table db @ [newOrder w t], orderItem_table := X\<rparr>) =
          (case order_update_fault w of
             Some e \<Rightarrow> Inl (PrismaError e)
           | None \<Rightarrow> Inr (db\<lparr>order_table := order_table db @
                 [(newOrder w t)\<lparr>order_externalTransactionId := Some a,
                                  order_paymentMethodId := Some b\<rparr>], orderItem_table := X\<rparr>))"
      for a b t X
      using fresh
      by (simp add: order_update_def idn order_update_fresh split: option.splits)
    from f show ?thesis
      by (simp add: createOrder_def fm priceOrder_matched order_create_def Let_def oid
                  orderItem_createMany_def ou idn paidOrder_def
               flip: newOrder_def split: option.splits sum.splits)
  qed
qed

lemma exactSubtotal_nonneg:
  assumes "\<forall>p \<in> set ps. 0 \<le> product_price p \<and> 0 \<le> clientQuantity orderItems (product_id p)"
  shows "0 \<le> exactSubtotal ps orderItems"
  using assms by (induction ps) (auto simp: exactSubtotal_def)

lemma subtotalOf_exact:
  assumes "\<forall>p \<in> set ps. is_integer (product_price p) \<and> 0 \<le> product_price p
              \<and> is_integer (clientQuantity orderItems (product_id p))
              \<and> 0 \<le> clientQuantity orderItems (product_id p)"
    and "is_integer acc" "0 \<le> acc"
    and "acc + exactSubtotal ps orderItems < 2 ^ 53"
  shows "subtotalOf orderItems acc ps = acc + exactSubtotal ps orderItems"
  using assms
proof (induction ps arbitrary: acc)
  case Nil
  show ?case by (simp add: subtotalOf_def exactSubtotal_def)
next
  case (Cons p ps)
  define lineTotal where "lineTotal = product_price p * clientQuantity orderItems (product_id p)"
  have split: "exactSubtotal (p # ps) orderItems = lineTotal + exactSubtotal ps orderItems"
    by (simp add: exactSubtotal_def lineTotal_def)
  have rest: "0 \<le> exactSubtotal ps orderItems"
    using Cons.prems(1) by (intro exactSubtotal_nonneg) simp
  have t0: "0 \<le> lineTotal" and ti: "is_integer lineTotal"
    using Cons.prems(1) by (simp_all add: lineTotal_def is_integer_mult)
  have bound: "acc + lineTotal + exactSubtotal ps orderItems < 2 ^ 53"
    using Cons.prems(4) by (simp add: split add.assoc)
  have m: "jmul (product_price p) (clientQuantity orderItems (product_id p)) = lineTotal"
    unfolding lineTotal_def using Cons.prems(1) t0 bound rest Cons.prems(3)
    by (intro jmul_exact) (simp_all add: lineTotal_def)
  have a: "jadd acc lineTotal = acc + lineTotal"
    using Cons.prems(2,3) ti t0 bound rest by (intro jadd_exact) simp_all
  have "subtotalOf orderItems acc (p # ps) = subtotalOf orderItems (acc + lineTotal) ps"
    by (simp add: subtotalOf_def m a)
  also have "\<dots> = acc + lineTotal + exactSubtotal ps orderItems"
    using Cons.prems(1,2,3) ti t0 bound by (intro Cons.IH) (simp_all add: is_integer_add)
  finally show ?case by (simp add: split add.assoc)
qed

lemma totalsOf_tenfold:
  fixes m :: int
  assumes "subtotalOf orderItems 0 ps = of_int (10 * m)" "0 \<le> m" "11 * m < 2 ^ 53"
  shows "totalsOf orderItems ps =
           \<lparr>subtotal = of_int (10 * m), tax = of_int m, grandTotal = of_int (11 * m)\<rparr>"
proof -
  have "m < 2 ^ 53" using assms(2,3) by linarith
  with assms(2) have t: "jmul (of_int (10 * m)) tenth = of_int m" by (rule jmul_tenth)
  have "jadd (rat_of_int (10 * m)) (of_int m) = of_int (10 * m) + of_int m"
    using assms(2,3) by (intro jadd_exact is_integer_of_int) (simp_all flip: of_int_add)
  then have g: "jadd (rat_of_int (10 * m)) (of_int m) = of_int (11 * m)" by simp
  show ?thesis by (simp only: totalsOf_def Let_def assms(1) t g)
qed

lemma createOrder_other_tables:
  assumes "createOrder w s orderItems db = (res, db')"
  shows "product_table db' = product_table db \<and>
         (orderItem_table db' = orderItem_table db \<or>
          orderItem_table db' = orderItem_table db @
             map (newOrderItem orderItems (new_order_id w)) (matchedProducts db orderItems))"
  using assms unfolding createOrder_unfold Let_def
  by (auto split: if_splits option.splits sum.splits)

lemma createOrder_success:
  assumes "createOrder w s orderItems db = (Inr r, db')"
  shows "\<exists>paymentRequest.
           createQRIS w (grandTotal (totalsOf orderItems (matchedProducts db orderItems)))
              (new_order_id w) = Inr paymentRequest
         \<and> qrStringOf paymentRequest = Inr (res_qrString r)
         \<and> res_order r = newOrder w (totalsOf orderItems (matchedProducts db orderItems))
         \<and> order_table db' = order_table db @
               [paidOrder (newOrder w (totalsOf orderItems (matchedProducts db orderItems)))
                  paymentRequest]"
  using assms unfolding createOrder_unfold Let_def
  by (auto split: if_splits option.splits sum.splits)

lemma find_filter_same:
  assumes "\<And>x. P x \<Longrightarrow> Q x"
  shows "find P (filter Q xs) = find P xs"
  using assms by (induction xs) auto

lemma clientQuantity_known:
  assumes "pid \<in> K"
  shows "clientQuantity (filter (\<lambda>item. in_productId item \<in> K) orderItems) pid =
         clientQuantity orderItems pid"
proof -
  have "find (\<lambda>item. in_productId item = pid) (filter (\<lambda>item. in_productId item \<in> K) orderItems) =
        find (\<lambda>item. in_productId item = pid) orderItems"
    using assms by (intro find_filter_same) simp
  then show ?thesis by (simp add: clientQuantity_def)
qed

lemma matchedProducts_known:
  "matchedProducts db (filter (\<lambda>item. in_productId item \<in> product_id ` set (product_table db)) orderItems)
     = matchedProducts db orderItems"
  unfolding matchedProducts_def
proof (rule filter_cong [OF refl])
  fix p assume "p \<in> set (product_table db)"
  then have "product_id p \<in> product_id ` set (product_table db)" by simp
  then show "(product_id p \<in> set (map in_productId
        (filter (\<lambda>item. in_productId item \<in> product_id ` set (product_table db)) orderItems)))
      = (product_id p \<in> set (map in_productId orderItems))"
    by force
qed

lemma matchedProducts_catalog:
  "p \<in> set (matchedProducts db orderItems) \<Longrightarrow> p \<in> set (product_table db)"
  by (simp add: matchedProducts_def)

lemma subtotalOf_known:
  assumes "\<forall>p \<in> set ps. product_id p \<in> K"
  shows "subtotalOf (filter (\<lambda>item. in_productId item \<in> K) orderItems) acc ps =
         subtotalOf orderItems acc ps"
  using assms
  by (induction ps arbitrary: acc) (simp_all add: subtotalOf_def clientQuantity_known)

lemma newOrderItem_known:
  assumes "\<forall>p \<in> set ps. product_id p \<in> K"
  shows "map (newOrderItem (filter (\<lambda>item. in_productId item \<in> K) orderItems) oid) ps =
         map (newOrderItem orderItems oid) ps"
  using assms by (induction ps) (simp_all add: newOrderItem_def clientQuantity_known)

lemma clientQuantity_nonneg:
  assumes "validInput orderItems"
  shows "0 \<le> clientQuantity orderItems pid"
proof (cases "find (\<lambda>item. in_productId item = pid) orderItems")
  case None
  then show ?thesis by (simp add: clientQuantity_def)
next
  case (Some item)
  then have "item \<in> set orderItems" by (auto simp: find_Some_iff)
  with assms have "1 \<le> in_quantity item" by (simp add: validInput_def list_all_iff)
  with Some show ?thesis by (simp add: clientQuantity_def)
qed


lemma createOrder_row:
  assumes "authorised s" "validInput orderItems" "findMany_fault w = None"
    and "order_create_fault w = None"
    and "new_order_id w \<notin> set (map order_id (order_table db))"
  shows "\<exists>row. row \<in> set (order_table (snd (createOrder w s orderItems db)))
           \<and> order_id row = new_order_id w
           \<and> order_subtotal row = subtotal (totalsOf orderItems (matchedProducts db orderItems))
           \<and> order_tax row = tax (totalsOf orderItems (matchedProducts db orderItems))
           \<and> order_grandTotal row = grandTotal (totalsOf orderItems (matchedProducts db orderItems))"
proof -
  obtain res db' where run: "createOrder w s orderItems db = (res, db')"
    by (cases "createOrder w s orderItems db")
  have "order_table db' = order_table db @ [newOrder w (totalsOf orderItems (matchedProducts db orderItems))]
      \<or> (\<exists>pr. order_table db' = order_table db @
            [paidOrder (newOrder w (totalsOf orderItems (matchedProducts db orderItems))) pr])"
    using run assms unfolding createOrder_unfold Let_def
    by (auto split: option.splits sum.splits)
  then show ?thesis
    by (auto simp: run newOrder_def paidOrder_def)
qed



section \<open>The steps of \<open>addToCart\<close>\<close>

lemma findIndex_ge: "- 1 \<le> findIndex P xs"
  by (induction xs) (auto simp: Let_def)

lemma findIndex_none: "findIndex P xs = - 1 \<longleftrightarrow> (\<forall>x \<in> set xs. \<not> P x)"
proof (induction xs)
  case Nil
  show ?case by simp
next
  case (Cons x xs)
  have "findIndex P xs + 1 \<noteq> - 1" using findIndex_ge [of P xs] by linarith
  with Cons show ?case by (auto simp: Let_def)
qed

lemma findIndex_some:
  assumes "findIndex P xs \<noteq> - 1"
  shows "0 \<le> findIndex P xs \<and> nat (findIndex P xs) < length xs \<and> P (xs ! nat (findIndex P xs))"
  using assms
proof (induction xs)
  case Nil
  then show ?case by simp
next
  case (Cons x xs)
  show ?case
  proof (cases "P x")
    case True
    then show ?thesis by simp
  next
    case False
    with Cons.prems have ne: "findIndex P xs \<noteq> - 1" by (auto simp: Let_def split: if_splits)
    from Cons.IH [OF ne] have ih: "0 \<le> findIndex P xs" "nat (findIndex P xs) < length xs"
      "P (xs ! nat (findIndex P xs))" by simp_all
    have n: "nat (findIndex P xs + 1) = Suc (nat (findIndex P xs))" using ih(1) by simp
    show ?thesis using False ne ih by (simp add: Let_def n)
  qed
qed

lemma findIndex_map: "findIndex P (map f xs) = findIndex (\<lambda>x. P (f x)) xs"
  by (induction xs) (simp_all add: Let_def)

lemma findIndex_cong:
  assumes "\<And>x. x \<in> set xs \<Longrightarrow> P x = Q x"
  shows "findIndex P xs = findIndex Q xs"
  using assms by (induction xs) (simp_all add: Let_def)

lemma addLineWith_absent:
  assumes "findIndex (\<lambda>l. cart_productId l = cart_productId newItem) ls = - 1"
  shows "addLineWith inc newItem ls = ls @ [newLine newItem]"
proof -
  from assms have "\<forall>l \<in> set ls. cart_productId l \<noteq> cart_productId newItem"
    by (simp add: findIndex_none)
  then show ?thesis by (induction ls) simp_all
qed

lemma addLineWith_present:
  assumes "findIndex (\<lambda>l. cart_productId l = cart_productId newItem) ls \<noteq> - 1"
  shows "addLineWith inc newItem ls =
     ls[nat (findIndex (\<lambda>l. cart_productId l = cart_productId newItem) ls) :=
        (ls ! nat (findIndex (\<lambda>l. cart_productId l = cart_productId newItem) ls))
          \<lparr>cart_quantity := inc (cart_quantity
             (ls ! nat (findIndex (\<lambda>l. cart_productId l = cart_productId newItem) ls)))\<rparr>]"
  using assms
proof (induction ls)
  case Nil
  then show ?case by simp
next
  case (Cons l ls)
  let ?P = "\<lambda>l. cart_productId l = cart_productId newItem"
  show ?case
  proof (cases "?P l")
    case True
    then show ?thesis by simp
  next
    case False
    with Cons.prems have ne: "findIndex ?P ls \<noteq> - 1" by (auto simp: Let_def split: if_splits)
    from findIndex_some [OF ne] have "0 \<le> findIndex ?P ls" by simp
    then have n: "nat (findIndex ?P ls + 1) = Suc (nat (findIndex ?P ls))" by simp
    show ?thesis using False ne Cons.IH [OF ne] by (simp add: Let_def n)
  qed
qed

lemma addLineWith_ids:
  "map cart_productId (addLineWith inc newItem ls) =
     (if cart_productId newItem \<in> set (map cart_productId ls) then map cart_productId ls
      else map cart_productId ls @ [cart_productId newItem])"
  by (induction ls) (auto simp: newLine_def)

lemma addLineWith_cong:
  assumes "\<forall>l \<in> set ls. cart_productId l = cart_productId newItem \<longrightarrow>
             f (cart_quantity l) = g (cart_quantity l)"
  shows "addLineWith f newItem ls = addLineWith g newItem ls"
  using assms by (induction ls) simp_all

lemma addLineWith_twice:
  assumes "cart_productId newItem \<notin> set (map cart_productId ls)"
  shows "addLineWith inc newItem (addLineWith inc newItem ls) =
           ls @ [(newLine newItem)\<lparr>cart_quantity := inc 1\<rparr>]"
  using assms by (induction ls) (auto simp: newLine_def)

lemma cartLines_wellFormed:
  assumes "wellFormed h s"
  shows "cartLines h s = map (\<lambda>r. objects h ! r) (arrays h ! items s)"
proof -
  from assms have a: "items s < length (arrays h)"
    and r: "\<forall>r \<in> set (arrays h ! items s). r < length (objects h)"
    by (simp_all add: wellFormed_def list_all_iff)
  have "List.map_filter (readObject h) rs = map (\<lambda>r. objects h ! r) rs"
    if "\<forall>r \<in> set rs. r < length (objects h)" for rs
    using that by (induction rs) (simp_all add: List.map_filter_simps readObject_def)
  from this [OF r] a show ?thesis by (simp add: cartLines_def readArray_def)
qed

lemma findIndex_lines:
  assumes "wellFormed h s"
  shows "findIndex (sameProduct (h\<lparr>arrays := arrays h @ [arrays h ! items s]\<rparr>) newItem)
           (arrays h ! items s) =
         findIndex (\<lambda>l. cart_productId l = cart_productId newItem) (cartLines h s)"
proof -
  from assms have r: "\<forall>r \<in> set (arrays h ! items s). r < length (objects h)"
    by (simp add: wellFormed_def list_all_iff)
  have "findIndex (sameProduct (h\<lparr>arrays := arrays h @ [arrays h ! items s]\<rparr>) newItem)
           (arrays h ! items s) =
        findIndex (\<lambda>r. cart_productId (objects h ! r) = cart_productId newItem) (arrays h ! items s)"
    using r by (intro findIndex_cong) (simp add: sameProduct_def readObject_def)
  then show ?thesis by (simp add: cartLines_wellFormed [OF assms] findIndex_map)
qed

lemma addToCart_absent:
  assumes "wellFormed h s"
    and "findIndex (\<lambda>l. cart_productId l = cart_productId newItem) (cartLines h s) = - 1"
  shows "addToCart newItem (h, s) =
           (\<lparr>objects = objects h @ [newLine newItem],
             arrays = arrays h @ [arrays h ! items s @ [length (objects h)]]\<rparr>,
            \<lparr>items = length (arrays h)\<rparr>)"
proof -
  from assms(1) have a: "items s < length (arrays h)" by (simp add: wellFormed_def)
  show ?thesis
    using a assms(2)
    by (simp add: addToCart_def Let_def readArray_def findIndex_lines [OF assms(1)] newLine_def
          nth_append)
qed

lemma addToCart_present:
  assumes "wellFormed h s"
    and "findIndex (\<lambda>l. cart_productId l = cart_productId newItem) (cartLines h s) = int i"
  shows "i < length (arrays h ! items s) \<and>
         addToCart newItem (h, s) =
           (\<lparr>objects = (objects h)[arrays h ! items s ! i :=
                 (objects h ! (arrays h ! items s ! i))
                   \<lparr>cart_quantity := jadd (cart_quantity (objects h ! (arrays h ! items s ! i))) 1\<rparr>],
             arrays = arrays h @ [arrays h ! items s]\<rparr>,
            \<lparr>items = length (arrays h)\<rparr>)"
proof -
  let ?P = "\<lambda>l. cart_productId l = cart_productId newItem"
  from assms(1) have a: "items s < length (arrays h)"
    and r: "\<forall>r \<in> set (arrays h ! items s). r < length (objects h)"
    by (simp_all add: wellFormed_def list_all_iff)
  from assms(2) have ne: "findIndex ?P (cartLines h s) \<noteq> - 1" by simp
  from findIndex_some [OF ne] assms(2) have i: "i < length (arrays h ! items s)"
    by (simp add: cartLines_wellFormed [OF assms(1)])
  with r have ri: "arrays h ! items s ! i < length (objects h)" by simp
  show ?thesis
    using a i ri assms(2)
    by (simp add: addToCart_def Let_def readArray_def readObject_def
          findIndex_lines [OF assms(1)] nth_append)
qed


lemma map_nth_update_distinct:
  assumes "distinct rs" "i < length rs" "\<forall>r \<in> set rs. r < length xs"
  shows "map (\<lambda>r. xs[rs ! i := v] ! r) rs = (map (\<lambda>r. xs ! r) rs)[i := v]"
proof (rule nth_equalityI)
  show "length (map (\<lambda>r. xs[rs ! i := v] ! r) rs) = length ((map (\<lambda>r. xs ! r) rs)[i := v])"
    by simp
next
  fix j assume "j < length (map (\<lambda>r. xs[rs ! i := v] ! r) rs)"
  then have j: "j < length rs" by simp
  have "rs ! j = rs ! i \<longleftrightarrow> j = i"
    using assms(1,2) j by (simp add: nth_eq_iff_index_eq)
  moreover have "rs ! i < length xs" "rs ! j < length xs" using assms(2,3) j by simp_all
  ultimately show "map (\<lambda>r. xs[rs ! i := v] ! r) rs ! j = (map (\<lambda>r. xs ! r) rs)[i := v] ! j"
    using j assms(2) by (auto simp: nth_list_update)
qed

lemma addToCart_lines:
  assumes wf: "wellFormed h s" and inv: "oneLinePerProduct (cartLines h s)"
    and run: "addToCart newItem (h, s) = (h', s')"
  shows "wellFormed h' s' \<and>
         cartLines h' s' = addLineWith (\<lambda>q. jadd q 1) newItem (cartLines h s)"
proof -
  let ?P = "\<lambda>l. cart_productId l = cart_productId newItem"
  let ?rs = "arrays h ! items s"
  from wf have a: "items s < length (arrays h)"
    and r: "\<forall>r \<in> set ?rs. r < length (objects h)"
    by (simp_all add: wellFormed_def list_all_iff)
  have lines: "cartLines h s = map (\<lambda>r. objects h ! r) ?rs"
    by (rule cartLines_wellFormed [OF wf])
  show ?thesis
  proof (cases "findIndex ?P (cartLines h s) = - 1")
    case True
    from addToCart_absent [OF wf True] run
    have h': "h' = \<lparr>objects = objects h @ [newLine newItem],
                    arrays = arrays h @ [?rs @ [length (objects h)]]\<rparr>"
      and s': "s' = \<lparr>items = length (arrays h)\<rparr>" by simp_all
    have w: "wellFormed h' s'"
      using r by (auto simp: wellFormed_def h' s' list_all_iff)
    have "cartLines h' s' = map (\<lambda>r. objects h ! r) ?rs @ [newLine newItem]"
      using r by (simp add: cartLines_wellFormed [OF w]) (simp add: h' s' nth_append)
    moreover note w
    moreover have "addLineWith (\<lambda>q. jadd q 1) newItem (cartLines h s) =
        cartLines h s @ [newLine newItem]"
      by (rule addLineWith_absent [OF True])
    ultimately show ?thesis by (simp add: lines)
  next
    case False
    from findIndex_some [OF False] obtain i where
      i: "findIndex ?P (cartLines h s) = int i"
      by (metis nat_0_le)
    from addToCart_present [OF wf i] run
    have il: "i < length ?rs"
      and h': "h' = \<lparr>objects = (objects h)[?rs ! i :=
                 (objects h ! (?rs ! i))
                   \<lparr>cart_quantity := jadd (cart_quantity (objects h ! (?rs ! i))) 1\<rparr>],
             arrays = arrays h @ [?rs]\<rparr>"
      and s': "s' = \<lparr>items = length (arrays h)\<rparr>" by simp_all
    have w: "wellFormed h' s'"
      using r by (auto simp: wellFormed_def h' s' list_all_iff)
    from inv have d: "distinct ?rs"
      by (simp add: oneLinePerProduct_def lines distinct_map)
    have "cartLines h' s' = map (\<lambda>r. (objects h)[?rs ! i :=
                 (objects h ! (?rs ! i))
                   \<lparr>cart_quantity := jadd (cart_quantity (objects h ! (?rs ! i))) 1\<rparr>] ! r) ?rs"
      by (simp add: cartLines_wellFormed [OF w]) (simp add: h' s')
    also have "\<dots> = (map (\<lambda>r. objects h ! r) ?rs)[i := (objects h ! (?rs ! i))
                   \<lparr>cart_quantity := jadd (cart_quantity (objects h ! (?rs ! i))) 1\<rparr>]"
      by (rule map_nth_update_distinct [OF d il r])
    also have "\<dots> = addLineWith (\<lambda>q. jadd q 1) newItem (cartLines h s)"
      using il unfolding addLineWith_present [OF False] i by (simp add: lines)
    finally show ?thesis using w by simp
  qed
qed

lemma jadd_one:
  assumes "safe_nat (q + 1)"
  shows "jadd q 1 = q + 1"
proof -
  from assms have i: "is_integer (q + 1)" and z: "0 \<le> q + 1" and b: "q + 1 < 2 ^ 53"
    by (simp_all add: safe_nat_def)
  have m: "is_integer (- 1)" using is_integer_of_int [of "- 1"] by simp
  have "is_integer (q + 1 + - 1)" using i m by (rule is_integer_add)
  then have q: "is_integer q" by simp
  have o: "is_integer 1" using is_integer_of_int [of 1] by simp
  from q o z b show ?thesis by (rule jadd_exact)
qed

lemma jadd_one_one: "jadd 1 1 = 2"
proof -
  have "safe_nat (of_int 2)" unfolding safe_nat_def by (intro conjI is_integer_of_int) simp_all
  then have "safe_nat (1 + 1)" by simp
  from jadd_one [OF this] show ?thesis by simp
qed


section \<open>The claims\<close>

text \<open>
  C2. The claim that the subtotal equals the sum of price times quantity, and the tax the
  subtotal times 0.10, does not hold in exact arithmetic: the totals are products and
  sums of doubles. For 1.3333333333333333 units of a product of price 3000 the
  order row that \<open>createOrder\<close> inserts has the subtotal 4000 (and tax 400, grand
  total 4400), while the sum of price times quantity is \<open>4000 - 1000 / 2 ^ 52\<close>. For one
  unit of the product of price 1001 the computed tax is the double
  \<open>7043911292184167 / 2 ^ 46\<close>, which is not a tenth of 1001.
\<close>

theorem createOrder_pricing_counterexample:
  "order_table (snd (createOrder demoWorld demoSession thirdsItems thirdsDb)) =
     [\<lparr>order_id = ''order-1'', order_subtotal = 4000, order_tax = 400,
       order_grandTotal = 4400, order_status = AWAITING_PAYMENT,
       order_externalTransactionId = Some ''pr-1'', order_paymentMethodId = Some ''pm-1''\<rparr>]
   \<and> exactSubtotal (matchedProducts thirdsDb thirdsItems) thirdsItems = 4000 - 1000 / 2 ^ 52
   \<and> priceOrder (matchedProducts demoDb [\<lparr>in_productId = ''C'', in_quantity = 1\<rparr>])
         [\<lparr>in_productId = ''C'', in_quantity = 1\<rparr>]
       = Inr \<lparr>subtotal = 1001, tax = 7043911292184167 / 70368744177664,
              grandTotal = 2421344506688307 / 2199023255552\<rparr>
   \<and> (7043911292184167 / 70368744177664 :: rat) \<noteq> 1001 * (1 / 10)"
  by code_simp

text \<open>
  C2, amended. The pricing computation in \<open>createOrder\<close> is a pure function of the matched
  products and the submitted lines, carried out in the arithmetic of doubles: whenever
  the call gets as far as inserting the order, the inserted row has as subtotal the sum,
  accumulated product by product, of the rounded products of catalog price and
  client-submitted quantity, as tax the rounded product of the subtotal and the double
  \<^verbatim>\<open>0.1\<close>, and as grand total the rounded sum of subtotal and tax. When the prices and
  quantities are whole numbers, the prices not negative, and the exact sum is below
  \<open>2 ^ 53\<close>, the subtotal is the exact sum; when moreover the exact sum is \<open>10 * m\<close>
  with \<open>11 * m < 2 ^ 53\<close>, the tax is exactly \<open>m\<close> and the grand total exactly \<open>11 * m\<close>.
  For the products of price 10000 and 5000 with quantities 2 and 1 this gives
  subtotal 25000, tax 2500 and grand total 27500.
\<close>

theorem createOrder_pricing:
  assumes "authorised s" "validInput orderItems" "findMany_fault w = None"
    and "order_create_fault w = None"
    and "new_order_id w \<notin> set (map order_id (order_table db))"
  shows "\<exists>row. row \<in> set (order_table (snd (createOrder w s orderItems db)))
     \<and> order_id row = new_order_id w
     \<and> order_subtotal row = subtotalOf orderItems 0 (matchedProducts db orderItems)
     \<and> order_tax row = jmul (order_subtotal row) tenth
     \<and> order_grandTotal row = jadd (order_subtotal row) (order_tax row)
     \<and> ((\<forall>p \<in> set (matchedProducts db orderItems).
            is_integer (product_price p) \<and> 0 \<le> product_price p
            \<and> is_integer (clientQuantity orderItems (product_id p)))
          \<and> exactSubtotal (matchedProducts db orderItems) orderItems < 2 ^ 53
          \<longrightarrow> order_subtotal row = exactSubtotal (matchedProducts db orderItems) orderItems)
     \<and> (\<forall>m::int. (\<forall>p \<in> set (matchedProducts db orderItems).
            is_integer (product_price p) \<and> 0 \<le> product_price p
            \<and> is_integer (clientQuantity orderItems (product_id p)))
          \<and> exactSubtotal (matchedProducts db orderItems) orderItems = of_int (10 * m)
          \<and> 11 * m < 2 ^ 53
          \<longrightarrow> order_tax row = of_int m \<and> order_grandTotal row = of_int (11 * m))"
proof -
  let ?ps = "matchedProducts db orderItems"
  let ?whole = "\<forall>p \<in> set ?ps. is_integer (product_price p) \<and> 0 \<le> product_price p
            \<and> is_integer (clientQuantity orderItems (product_id p))"
  from createOrder_row [OF assms] obtain row where
    r: "row \<in> set (order_table (snd (createOrder w s orderItems db)))"
      "order_id row = new_order_id w"
    and s: "order_subtotal row = subtotal (totalsOf orderItems ?ps)"
    and t: "order_tax row = tax (totalsOf orderItems ?ps)"
    and g: "order_grandTotal row = grandTotal (totalsOf orderItems ?ps)"
    by blast
  have s': "order_subtotal row = subtotalOf orderItems 0 ?ps"
    by (simp add: s totalsOf_def Let_def)
  have t': "order_tax row = jmul (order_subtotal row) tenth"
    by (simp add: s t totalsOf_def Let_def)
  have g': "order_grandTotal row = jadd (order_subtotal row) (order_tax row)"
    by (simp add: s t g totalsOf_def Let_def)
  have zi: "is_integer 0" using is_integer_of_int [of 0] by simp
  have full: "\<forall>p \<in> set ?ps. is_integer (product_price p) \<and> 0 \<le> product_price p
              \<and> is_integer (clientQuantity orderItems (product_id p))
              \<and> 0 \<le> clientQuantity orderItems (product_id p)" if ?whole
    using that clientQuantity_nonneg [OF assms(2)] by simp
  have ex: "subtotalOf orderItems 0 ?ps = exactSubtotal ?ps orderItems"
    if w: ?whole and b: "exactSubtotal ?ps orderItems < 2 ^ 53"
  proof -
    from b have "0 + exactSubtotal ?ps orderItems < 2 ^ 53" by simp
    from subtotalOf_exact [OF full [OF w] zi order_refl this] show ?thesis by simp
  qed
  have tm: "order_tax row = of_int m \<and> order_grandTotal row = of_int (11 * m)"
    if w: ?whole and e: "exactSubtotal ?ps orderItems = of_int (10 * m)"
      and b: "11 * m < 2 ^ 53" for m :: int
  proof -
    have "0 \<le> exactSubtotal ?ps orderItems"
      using full [OF w] by (intro exactSubtotal_nonneg) simp
    then have "(0::rat) \<le> of_int (10 * m)" by (simp only: e)
    then have m0: "0 \<le> m" by simp
    have "10 * m < 2 ^ 53" using m0 b by linarith
    then have "rat_of_int (10 * m) < of_int (2 ^ 53)" by (simp only: of_int_less_iff)
    then have "exactSubtotal ?ps orderItems < 2 ^ 53" by (simp add: e)
    from ex [OF w this] have "subtotalOf orderItems 0 ?ps = of_int (10 * m)" by (simp only: e)
    from totalsOf_tenfold [OF this m0 b] show ?thesis by (simp add: t g)
  qed
  have ex': "?whole \<and> exactSubtotal ?ps orderItems < 2 ^ 53
      \<longrightarrow> order_subtotal row = exactSubtotal ?ps orderItems"
    using ex by (simp only: s') blast
  have tm': "\<forall>m::int. ?whole \<and> exactSubtotal ?ps orderItems = of_int (10 * m) \<and> 11 * m < 2 ^ 53
      \<longrightarrow> order_tax row = of_int m \<and> order_grandTotal row = of_int (11 * m)"
    using tm by blast
  from r s' t' g' ex' tm' show ?thesis by blast
qed

theorem createOrder_pricing_witness:
  "\<exists>row. row \<in> set (order_table (snd (createOrder demoWorld demoSession demoItems demoDb)))
     \<and> order_id row = ''order-1''
     \<and> order_subtotal row = 25000 \<and> order_tax row = 2500 \<and> order_grandTotal row = 27500"
proof -
  have a: "authorised demoSession" by code_simp
  have b: "validInput demoItems" by code_simp
  have c: "findMany_fault demoWorld = None" by code_simp
  have d: "order_create_fault demoWorld = None" by code_simp
  have e: "new_order_id demoWorld \<notin> set (map order_id (order_table demoDb))" by code_simp
  have n: "new_order_id demoWorld = ''order-1''" by code_simp
  have h1: "\<forall>p \<in> set (matchedProducts demoDb demoItems).
              is_integer (product_price p) \<and> 0 \<le> product_price p
              \<and> is_integer (clientQuantity demoItems (product_id p))"
    by code_simp
  have h2: "exactSubtotal (matchedProducts demoDb demoItems) demoItems = of_int (10 * 2500)"
    by code_simp
  have h3: "11 * (2500::int) < 2 ^ 53" by simp
  have h4: "exactSubtotal (matchedProducts demoDb demoItems) demoItems < 2 ^ 53"
    by (simp add: h2)
  from createOrder_pricing [OF a b c d e] obtain row where
    r: "row \<in> set (order_table (snd (createOrder demoWorld demoSession demoItems demoDb)))"
      "order_id row = new_order_id demoWorld"
    and s: "(\<forall>p \<in> set (matchedProducts demoDb demoItems).
            is_integer (product_price p) \<and> 0 \<le> product_price p
            \<and> is_integer (clientQuantity demoItems (product_id p)))
          \<and> exactSubtotal (matchedProducts demoDb demoItems) demoItems < 2 ^ 53
          \<longrightarrow> order_subtotal row = exactSubtotal (matchedProducts demoDb demoItems) demoItems"
    and t: "\<forall>m::int. (\<forall>p \<in> set (matchedProducts demoDb demoItems).
            is_integer (product_price p) \<and> 0 \<le> product_price p
            \<and> is_integer (clientQuantity demoItems (product_id p)))
          \<and> exactSubtotal (matchedProducts demoDb demoItems) demoItems = of_int (10 * m)
          \<and> 11 * m < 2 ^ 53
          \<longrightarrow> order_tax row = of_int m \<and> order_grandTotal row = of_int (11 * m)"
    by blast
  from s h1 h4 have "order_subtotal row = of_int (10 * 2500)" by (simp only: h2)
  moreover from t h1 h2 h3 have "order_tax row = of_int 2500 \<and> order_grandTotal row = of_int (11 * 2500)"
    by blast
  ultimately show ?thesis using r by (intro exI [of _ row]) (simp add: n)
qed



text \<open>
  C1. The claim that no Order row is persisted when the insertion of the OrderItem rows
  fails does not hold: \<^verbatim>\<open>db.order.create\<close> and \<^verbatim>\<open>db.orderItem.createMany\<close> are two
  separate calls, outside any transaction. With a database that refuses the second call
  the order row is there and has no items.
\<close>

theorem order_atomicity_counterexample:
  "createOrder itemFaultWorld demoSession demoItems demoDb =
     (Inl (PrismaError ''insert failed''),
      \<lparr>product_table = demoCatalog,
       order_table = [\<lparr>order_id = ''order-1'', order_subtotal = 25000, order_tax = 2500,
                       order_grandTotal = 27500, order_status = AWAITING_PAYMENT,
                       order_externalTransactionId = None, order_paymentMethodId = None\<rparr>],
       orderItem_table = []\<rparr>)"
  by code_simp

text \<open>
  C1, amended. In \<open>createOrder\<close> the Order row and its OrderItem rows are written by two
  separate database calls: in every execution in which the insertion of the OrderItem
  rows fails (after the order was inserted), the call fails with that database error, the
  Order row stays persisted, in its default status and without external ids, and no
  OrderItem row is written.
\<close>

theorem createMany_failure_keeps_order:
  assumes "authorised s" "validInput orderItems" "findMany_fault w = None"
    and "order_create_fault w = None"
    and "new_order_id w \<notin> set (map order_id (order_table db))"
    and "createMany_fault w = Some e"
  shows "createOrder w s orderItems db =
           (Inl (PrismaError e),
            db\<lparr>order_table := order_table db @
                 [newOrder w (totalsOf orderItems (matchedProducts db orderItems))]\<rparr>)
         \<and> orderItem_table (snd (createOrder w s orderItems db)) = orderItem_table db"
  using assms by (simp add: createOrder_unfold Let_def)

theorem createMany_failure_keeps_order_witness:
  "createOrder itemFaultWorld demoSession demoItems demoDb =
     (Inl (PrismaError ''insert failed''),
      demoDb\<lparr>order_table := order_table demoDb @
                 [newOrder itemFaultWorld (totalsOf demoItems (matchedProducts demoDb demoItems))]\<rparr>)
   \<and> orderItem_table (snd (createOrder itemFaultWorld demoSession demoItems demoDb)) = []"
proof -
  have a: "authorised demoSession" by code_simp
  have b: "validInput demoItems" by code_simp
  have c: "findMany_fault itemFaultWorld = None" by code_simp
  have d: "order_create_fault itemFaultWorld = None" by code_simp
  have e: "new_order_id itemFaultWorld \<notin> set (map order_id (order_table demoDb))" by code_simp
  have f: "createMany_fault itemFaultWorld = Some ''insert failed''" by code_simp
  have g: "orderItem_table demoDb = []" by code_simp
  from createMany_failure_keeps_order [OF a b c d e f] g show ?thesis by simp
qed

text \<open>
  C5. Two parts of the claim do not hold, because \<open>createOrder\<close> does not catch what
  \<^verbatim>\<open>createQRIS\<close> throws. The failure is not surfaced as a distinct error: the caller gets
  the code \<^verbatim>\<open>INTERNAL_SERVER_ERROR\<close> for a gateway that is down just as for a database
  that refuses the order items. And the response need not include the id of the created
  order: with a gateway that is down, two runs that create the orders \<open>order-1\<close> and
  \<open>order-2\<close> give the caller the very same error, which names neither.
\<close>

theorem gateway_failure_counterexample:
  "fst (createOrder gatewayDownWorld demoSession demoItems demoDb) = Inl (XenditError ''gateway timeout'')
   \<and> fst (createOrder gatewayDownWorld2 demoSession demoItems demoDb) = Inl (XenditError ''gateway timeout'')
   \<and> map order_id (order_table (snd (createOrder gatewayDownWorld demoSession demoItems demoDb))) = [''order-1'']
   \<and> map order_id (order_table (snd (createOrder gatewayDownWorld2 demoSession demoItems demoDb))) = [''order-2'']
   \<and> callerSees (fst (createOrder gatewayDownWorld demoSession demoItems demoDb))
        = Inl (CODE_INTERNAL_SERVER_ERROR, ''gateway timeout'')
   \<and> callerSees (fst (createOrder itemFaultWorld demoSession demoItems demoDb))
        = Inl (CODE_INTERNAL_SERVER_ERROR, ''insert failed'')"
proof -
  have r1: "fst (createOrder gatewayDownWorld demoSession demoItems demoDb) = Inl (XenditError ''gateway timeout'')
      \<and> map order_id (order_table (snd (createOrder gatewayDownWorld demoSession demoItems demoDb))) = [''order-1'']"
    by code_simp
  have r2: "fst (createOrder gatewayDownWorld2 demoSession demoItems demoDb) = Inl (XenditError ''gateway timeout'')
      \<and> map order_id (order_table (snd (createOrder gatewayDownWorld2 demoSession demoItems demoDb))) = [''order-2'']"
    by code_simp
  have r3: "fst (createOrder itemFaultWorld demoSession demoItems demoDb) = Inl (PrismaError ''insert failed'')"
    by code_simp
  show ?thesis by (simp add: r1 r2 r3 callerSees_def surfaced_def)
qed

text \<open>
  C5, amended. If the call of the payment gateway in \<open>createOrder\<close> fails after the order is
  persisted, the Order row and its OrderItem rows remain stored, the order in its default
  status \<^verbatim>\<open>AWAITING_PAYMENT\<close> with no external ids set, and the call fails with exactly
  the error that \<^verbatim>\<open>createQRIS\<close> threw: the caller receives an
  \<^verbatim>\<open>INTERNAL_SERVER_ERROR\<close> with the message of that error, the code that a database
  failure has too. \<open>createOrder\<close> adds nothing to the error, so the response names the
  created order only if the gateway's own error does.
\<close>

theorem gateway_failure_keeps_order:
  assumes "authorised s" "validInput orderItems" "findMany_fault w = None"
    and "order_create_fault w = None"
    and "new_order_id w \<notin> set (map order_id (order_table db))"
    and "createMany_fault w = None"
    and "createQRIS w (grandTotal (totalsOf orderItems (matchedProducts db orderItems)))
           (new_order_id w) = Inl e"
  shows "createOrder w s orderItems db =
           (Inl (XenditError e),
            db\<lparr>order_table := order_table db @
                   [newOrder w (totalsOf orderItems (matchedProducts db orderItems))],
                orderItem_table := orderItem_table db @
                   map (newOrderItem orderItems (new_order_id w)) (matchedProducts db orderItems)\<rparr>)
         \<and> callerSees (fst (createOrder w s orderItems db)) = Inl (CODE_INTERNAL_SERVER_ERROR, e)
         \<and> (\<exists>row \<in> set (order_table (snd (createOrder w s orderItems db))).
                order_id row = new_order_id w)
         \<and> (\<forall>row \<in> set (order_table (snd (createOrder w s orderItems db))).
                order_id row = new_order_id w \<longrightarrow>
                  order_status row = AWAITING_PAYMENT
                  \<and> order_externalTransactionId row = None
                  \<and> order_paymentMethodId row = None)"
proof -
  let ?t = "totalsOf orderItems (matchedProducts db orderItems)"
  let ?db' = "db\<lparr>order_table := order_table db @ [newOrder w ?t],
                orderItem_table := orderItem_table db @
                   map (newOrderItem orderItems (new_order_id w)) (matchedProducts db orderItems)\<rparr>"
  have run: "createOrder w s orderItems db = (Inl (XenditError e), ?db')"
    using assms by (simp add: createOrder_unfold Let_def)
  have see: "callerSees (fst (createOrder w s orderItems db)) = Inl (CODE_INTERNAL_SERVER_ERROR, e)"
    by (simp add: run callerSees_def surfaced_def)
  have ex: "\<exists>row \<in> set (order_table (snd (createOrder w s orderItems db))).
      order_id row = new_order_id w"
    by (simp add: run newOrder_def)
  have al: "\<forall>row \<in> set (order_table (snd (createOrder w s orderItems db))).
                order_id row = new_order_id w \<longrightarrow>
                  order_status row = AWAITING_PAYMENT
                  \<and> order_externalTransactionId row = None
                  \<and> order_paymentMethodId row = None"
    using assms(5) by (force simp: run newOrder_def)
  from run see ex al show ?thesis by blast
qed

theorem gateway_failure_keeps_order_witness:
  "createOrder gatewayDownWorld demoSession demoItems demoDb =
     (Inl (XenditError ''gateway timeout''),
      \<lparr>product_table = demoCatalog,
       order_table = [\<lparr>order_id = ''order-1'', order_subtotal = 25000, order_tax = 2500,
                       order_grandTotal = 27500, order_status = AWAITING_PAYMENT,
                       order_externalTransactionId = None, order_paymentMethodId = None\<rparr>],
       orderItem_table = [\<lparr>oi_orderId = ''order-1'', oi_price = 10000, oi_productId = ''A'', oi_quantity = 2\<rparr>,
                          \<lparr>oi_orderId = ''order-1'', oi_price = 5000, oi_productId = ''B'', oi_quantity = 1\<rparr>]\<rparr>)
   \<and> callerSees (fst (createOrder gatewayDownWorld demoSession demoItems demoDb))
        = Inl (CODE_INTERNAL_SERVER_ERROR, ''gateway timeout'')"
proof -
  have a: "authorised demoSession" by code_simp
  have b: "validInput demoItems" by code_simp
  have c: "findMany_fault gatewayDownWorld = None" by code_simp
  have d: "order_create_fault gatewayDownWorld = None" by code_simp
  have e: "new_order_id gatewayDownWorld \<notin> set (map order_id (order_table demoDb))" by code_simp
  have f: "createMany_fault gatewayDownWorld = None" by code_simp
  have g: "createQRIS gatewayDownWorld (grandTotal (totalsOf demoItems (matchedProducts demoDb demoItems)))
           (new_order_id gatewayDownWorld) = Inl ''gateway timeout''" by code_simp
  have h: "demoDb\<lparr>order_table := order_table demoDb @
                   [newOrder gatewayDownWorld (totalsOf demoItems (matchedProducts demoDb demoItems))],
                orderItem_table := orderItem_table demoDb @
                   map (newOrderItem demoItems (new_order_id gatewayDownWorld)) (matchedProducts demoDb demoItems)\<rparr>
      = \<lparr>product_table = demoCatalog,
       order_table = [\<lparr>order_id = ''order-1'', order_subtotal = 25000, order_tax = 2500,
                       order_grandTotal = 27500, order_status = AWAITING_PAYMENT,
                       order_externalTransactionId = None, order_paymentMethodId = None\<rparr>],
       orderItem_table = [\<lparr>oi_orderId = ''order-1'', oi_price = 10000, oi_productId = ''A'', oi_quantity = 2\<rparr>,
                          \<lparr>oi_orderId = ''order-1'', oi_price = 5000, oi_productId = ''B'', oi_quantity = 1\<rparr>]\<rparr>"
    by code_simp
  note th = gateway_failure_keeps_order [OF a b c d e f g]
  from th have "createOrder gatewayDownWorld demoSession demoItems demoDb =
     (Inl (XenditError ''gateway timeout''),
      \<lparr>product_table = demoCatalog,
       order_table = [\<lparr>order_id = ''order-1'', order_subtotal = 25000, order_tax = 2500,
                       order_grandTotal = 27500, order_status = AWAITING_PAYMENT,
                       order_externalTransactionId = None, order_paymentMethodId = None\<rparr>],
       orderItem_table = [\<lparr>oi_orderId = ''order-1'', oi_price = 10000, oi_productId = ''A'', oi_quantity = 2\<rparr>,
                          \<lparr>oi_orderId = ''order-1'', oi_price = 5000, oi_productId = ''B'', oi_quantity = 1\<rparr>]\<rparr>)"
    by (simp only: h)
  moreover from th have "callerSees (fst (createOrder gatewayDownWorld demoSession demoItems demoDb))
        = Inl (CODE_INTERNAL_SERVER_ERROR, ''gateway timeout'')"
    by blast
  ultimately show ?thesis by (rule conjI)
qed

text \<open>
  C6. The claim that an empty list of order items is rejected does not hold: the schema is
  \<^verbatim>\<open>z.array(...)\<close> with no minimum length. An empty request passes validation and creates
  an order with zero totals and no items.
\<close>

theorem empty_request_counterexample:
  "createOrder demoWorld demoSession [] demoDb =
     (Inr \<lparr>res_order = \<lparr>order_id = ''order-1'', order_subtotal = 0, order_tax = 0,
                         order_grandTotal = 0, order_status = AWAITING_PAYMENT,
                         order_externalTransactionId = None, order_paymentMethodId = None\<rparr>,
           res_newOrderItems = 0, res_qrString = Some ''00020101021226''\<rparr>,
      \<lparr>product_table = demoCatalog,
       order_table = [\<lparr>order_id = ''order-1'', order_subtotal = 0, order_tax = 0,
                       order_grandTotal = 0, order_status = AWAITING_PAYMENT,
                       order_externalTransactionId = Some ''pr-1'',
                       order_paymentMethodId = Some ''pm-1''\<rparr>],
       orderItem_table = []\<rparr>)"
  by code_simp

text \<open>
  C6, amended. For a caller with a session, \<open>createOrder\<close> rejects its input with a
  validation error, before any persistence, whenever the quantity of any item is less
  than 1; the empty list of items passes the validation.
\<close>

theorem quantity_below_one_rejected:
  assumes "authorised s" "item \<in> set orderItems" "in_quantity item < 1"
  shows "createOrder w s orderItems db = (Inl ZodError, db) \<and> validInput []"
proof -
  from assms(2,3) have "\<not> validInput orderItems"
    by (force simp: validInput_def list_all_iff not_le)
  with assms(1) show ?thesis by (simp add: createOrder_def validInput_def)
qed

theorem quantity_below_one_rejected_witness:
  "createOrder demoWorld demoSession
     [\<lparr>in_productId = ''A'', in_quantity = 2\<rparr>, \<lparr>in_productId = ''B'', in_quantity = 0\<rparr>] demoDb
     = (Inl ZodError, demoDb)"
proof -
  have a: "authorised demoSession" by code_simp
  have b: "\<lparr>in_productId = ''B'', in_quantity = 0\<rparr> \<in> set
     [\<lparr>in_productId = ''A'', in_quantity = 2\<rparr>, \<lparr>in_productId = ''B'', in_quantity = 0\<rparr>]" by simp
  have c: "in_quantity \<lparr>in_productId = ''B'', in_quantity = 0\<rparr> < 1" by simp
  from quantity_below_one_rejected [OF a b c] show ?thesis by simp
qed

text \<open>
  C10. The order object in the successful response of \<open>createOrder\<close> is the row as it was
  created, before the reconciliation: its \<^verbatim>\<open>externalTransactionId\<close> and
  \<^verbatim>\<open>paymentMethodId\<close> are unset, although the row stored in the database carries the two
  ids that the payment request returned.
\<close>

theorem response_order_is_unreconciled:
  assumes "createOrder w s orderItems db = (Inr r, db')"
  shows "order_externalTransactionId (res_order r) = None
         \<and> order_paymentMethodId (res_order r) = None
         \<and> (\<exists>paymentRequest row.
               createQRIS w (order_grandTotal (res_order r)) (order_id (res_order r)) = Inr paymentRequest
               \<and> row \<in> set (order_table db')
               \<and> order_id row = order_id (res_order r)
               \<and> order_externalTransactionId row = Some (pr_id paymentRequest)
               \<and> order_paymentMethodId row = Some (pm_id (pr_paymentMethod paymentRequest))
               \<and> qrStringOf paymentRequest = Inr (res_qrString r))"
proof -
  let ?t = "totalsOf orderItems (matchedProducts db orderItems)"
  from createOrder_success [OF assms] obtain paymentRequest where
    pay: "createQRIS w (grandTotal ?t) (new_order_id w) = Inr paymentRequest"
    and qr: "qrStringOf paymentRequest = Inr (res_qrString r)"
    and r: "res_order r = newOrder w ?t"
    and db': "order_table db' = order_table db @ [paidOrder (newOrder w ?t) paymentRequest]"
    by blast
  let ?row = "paidOrder (newOrder w ?t) paymentRequest"
  have "createQRIS w (order_grandTotal (res_order r)) (order_id (res_order r)) = Inr paymentRequest"
    using pay by (simp add: r newOrder_def)
  moreover have "?row \<in> set (order_table db')" by (simp add: db')
  moreover have "order_id ?row = order_id (res_order r)"
    and "order_externalTransactionId ?row = Some (pr_id paymentRequest)"
    and "order_paymentMethodId ?row = Some (pm_id (pr_paymentMethod paymentRequest))"
    by (simp_all add: r paidOrder_def)
  moreover have "order_externalTransactionId (res_order r) = None"
    and "order_paymentMethodId (res_order r) = None"
    by (simp_all add: r newOrder_def)
  ultimately show ?thesis using qr by blast
qed

theorem response_order_is_unreconciled_witness:
  "order_externalTransactionId (res_order (projr (fst (createOrder demoWorld demoSession demoItems demoDb)))) = None
   \<and> map order_externalTransactionId (order_table (snd (createOrder demoWorld demoSession demoItems demoDb)))
       = [Some ''pr-1'']"
proof -
  have run: "createOrder demoWorld demoSession demoItems demoDb =
      (Inr (projr (fst (createOrder demoWorld demoSession demoItems demoDb))),
       snd (createOrder demoWorld demoSession demoItems demoDb))"
    by code_simp
  have "map order_externalTransactionId (order_table (snd (createOrder demoWorld demoSession demoItems demoDb)))
       = [Some ''pr-1'']"
    by code_simp
  with response_order_is_unreconciled [OF run] show ?thesis by simp
qed

text \<open>
  C7. A line of the request whose \<^verbatim>\<open>productId\<close> is not in the catalog is silently dropped:
  a valid request has exactly the outcome (response or error, and database) of the
  request without its unknown lines, so such a line contributes nothing to the totals,
  produces no OrderItem and does not make the request fail; every OrderItem the call
  adds is for a product of the catalog.
\<close>

theorem unknown_product_dropped:
  assumes "validInput orderItems"
  shows "createOrder w s orderItems db =
           createOrder w s
             (filter (\<lambda>item. in_productId item \<in> product_id ` set (product_table db)) orderItems) db
         \<and> (\<forall>it \<in> set (orderItem_table (snd (createOrder w s orderItems db))).
               it \<in> set (orderItem_table db)
               \<or> oi_productId it \<in> product_id ` set (product_table db))"
proof -
  let ?K = "product_id ` set (product_table db)"
  let ?known = "filter (\<lambda>item. in_productId item \<in> ?K) orderItems"
  let ?ps = "matchedProducts db orderItems"
  have ps: "\<forall>p \<in> set ?ps. product_id p \<in> ?K"
    by (auto dest: matchedProducts_catalog)
  have v: "validInput ?known"
    using assms by (simp add: validInput_def list_all_iff)
  have t: "totalsOf ?known ?ps = totalsOf orderItems ?ps"
    by (simp add: totalsOf_def subtotalOf_known [OF ps])
  have i: "map (newOrderItem ?known oid) ?ps = map (newOrderItem orderItems oid) ?ps" for oid
    by (rule newOrderItem_known [OF ps])
  have eq: "createOrder w s orderItems db = createOrder w s ?known db"
    using assms v
    by (simp add: createOrder_unfold Let_def matchedProducts_known t i
             split: option.splits sum.splits)
  obtain res db' where run: "createOrder w s orderItems db = (res, db')"
    by (cases "createOrder w s orderItems db")
  from createOrder_other_tables [OF run]
  have "\<forall>it \<in> set (orderItem_table db'). it \<in> set (orderItem_table db) \<or> oi_productId it \<in> ?K"
    using ps by (auto simp: newOrderItem_def)
  then have "\<forall>it \<in> set (orderItem_table (snd (createOrder w s orderItems db))).
      it \<in> set (orderItem_table db) \<or> oi_productId it \<in> ?K"
    by (simp add: run)
  with eq show ?thesis by (rule conjI)
qed

theorem unknown_product_dropped_witness:
  "createOrder demoWorld demoSession bogusItems demoDb =
     createOrder demoWorld demoSession demoItems demoDb
   \<and> map oi_productId (orderItem_table (snd (createOrder demoWorld demoSession bogusItems demoDb)))
       = [''A'', ''B'']
   \<and> map order_subtotal (order_table (snd (createOrder demoWorld demoSession bogusItems demoDb)))
       = [25000]"
proof -
  have v: "validInput bogusItems" by code_simp
  have f: "filter (\<lambda>item. in_productId item \<in> product_id ` set (product_table demoDb)) bogusItems
      = demoItems"
    by code_simp
  have r: "map oi_productId (orderItem_table (snd (createOrder demoWorld demoSession demoItems demoDb)))
       = [''A'', ''B'']
     \<and> map order_subtotal (order_table (snd (createOrder demoWorld demoSession demoItems demoDb)))
       = [25000]"
    by code_simp
  from unknown_product_dropped [OF v, of demoWorld demoSession demoDb]
  have "createOrder demoWorld demoSession bogusItems demoDb =
     createOrder demoWorld demoSession demoItems demoDb"
    by (simp only: f)
  with r show ?thesis by simp
qed

text \<open>
  C4. Every OrderItem that \<open>createOrder\<close> persists carries the price of the catalog row
  of its product as read during the call (the input has no price field) and the quantity
  of the first submitted line with its \<^verbatim>\<open>productId\<close>, and is linked to the new order. The
  price is a copy: changing the catalog afterwards leaves the stored items as they are,
  and so does any later call of \<open>createOrder\<close>.
\<close>

theorem orderItem_price_snapshot:
  assumes "createOrder w s orderItems db = (res, db')"
    and "it \<in> set (orderItem_table db')" "it \<notin> set (orderItem_table db)"
  shows "(\<exists>p line. p \<in> set (product_table db) \<and> product_id p = oi_productId it
             \<and> oi_price it = product_price p
             \<and> find (\<lambda>item. in_productId item = oi_productId it) orderItems = Some line
             \<and> oi_quantity it = in_quantity line)
         \<and> oi_orderId it = new_order_id w
         \<and> orderItem_table (db'\<lparr>product_table := catalog'\<rparr>) = orderItem_table db'
         \<and> it \<in> set (orderItem_table (snd (createOrder w' s' orderItems' (db'\<lparr>product_table := catalog'\<rparr>))))"
proof -
  from createOrder_other_tables [OF assms(1)] assms(2,3)
  obtain p where p: "p \<in> set (matchedProducts db orderItems)"
    and it: "it = newOrderItem orderItems (new_order_id w) p"
    by auto
  from p have cat: "p \<in> set (product_table db)" by (rule matchedProducts_catalog)
  from p have "product_id p \<in> set (map in_productId orderItems)"
    using matchedProducts_ids by blast
  then obtain line where line: "find (\<lambda>item. in_productId item = product_id p) orderItems = Some line"
    by (cases "find (\<lambda>item. in_productId item = product_id p) orderItems")
       (auto simp: find_None_iff)
  have q: "oi_quantity it = in_quantity line"
    by (simp add: it newOrderItem_def clientQuantity_def line)
  have a: "\<exists>p line. p \<in> set (product_table db) \<and> product_id p = oi_productId it
             \<and> oi_price it = product_price p
             \<and> find (\<lambda>item. in_productId item = oi_productId it) orderItems = Some line
             \<and> oi_quantity it = in_quantity line"
    using cat line q by (intro exI [of _ p] exI [of _ line]) (simp add: it newOrderItem_def)
  obtain res2 db2 where run2:
    "createOrder w' s' orderItems' (db'\<lparr>product_table := catalog'\<rparr>) = (res2, db2)"
    by (cases "createOrder w' s' orderItems' (db'\<lparr>product_table := catalog'\<rparr>)")
  from createOrder_other_tables [OF run2] assms(2)
  have "it \<in> set (orderItem_table db2)" by auto
  with a show ?thesis by (simp add: run2 it newOrderItem_def)
qed

theorem orderItem_price_snapshot_witness:
  "orderItem_table (snd (createOrder demoWorld demoSession demoItems demoDb)) =
     [\<lparr>oi_orderId = ''order-1'', oi_price = 10000, oi_productId = ''A'', oi_quantity = 2\<rparr>,
      \<lparr>oi_orderId = ''order-1'', oi_price = 5000, oi_productId = ''B'', oi_quantity = 1\<rparr>]
   \<and> \<lparr>oi_orderId = ''order-1'', oi_price = 10000, oi_productId = ''A'', oi_quantity = 2\<rparr>
       \<in> set (orderItem_table (snd (createOrder (demoWorld\<lparr>new_order_id := ''order-2''\<rparr>) demoSession demoItems
            ((snd (createOrder demoWorld demoSession demoItems demoDb))
               \<lparr>product_table := [demoProduct ''A'' 20000, demoProduct ''B'' 5000]\<rparr>))))"
proof -
  let ?it = "\<lparr>oi_orderId = ''order-1'', oi_price = 10000, oi_productId = ''A'', oi_quantity = 2\<rparr>"
  have run: "createOrder demoWorld demoSession demoItems demoDb =
      (fst (createOrder demoWorld demoSession demoItems demoDb),
       snd (createOrder demoWorld demoSession demoItems demoDb))"
    by simp
  have tab: "orderItem_table (snd (createOrder demoWorld demoSession demoItems demoDb)) =
     [?it, \<lparr>oi_orderId = ''order-1'', oi_price = 5000, oi_productId = ''B'', oi_quantity = 1\<rparr>]"
    by code_simp
  have a: "?it \<in> set (orderItem_table (snd (createOrder demoWorld demoSession demoItems demoDb)))"
    by (simp add: tab)
  have b: "?it \<notin> set (orderItem_table demoDb)" by code_simp
  from orderItem_price_snapshot [OF run a b,
      of "[demoProduct ''A'' 20000, demoProduct ''B'' 5000]" "demoWorld\<lparr>new_order_id := ''order-2''\<rparr>"
         demoSession demoItems]
  have "?it \<in> set (orderItem_table (snd (createOrder (demoWorld\<lparr>new_order_id := ''order-2''\<rparr>)
            demoSession demoItems
            ((snd (createOrder demoWorld demoSession demoItems demoDb))
               \<lparr>product_table := [demoProduct ''A'' 20000, demoProduct ''B'' 5000]\<rparr>))))"
    by blast
  with tab show ?thesis by (rule conjI)
qed

text \<open>
  C8. \<open>addToCart\<close> preserves the invariant that the cart has at most one line for each
  \<^verbatim>\<open>productId\<close>. On the lines of the cart it acts as the spec says: a new line with
  quantity 1 is appended when no line has the item's \<^verbatim>\<open>productId\<close>, otherwise the
  quantity of the matching line is incremented by 1 (by the addition of doubles, which
  is the exact increment while the result is a whole number below \<open>2 ^ 53\<close>) and no line
  is added. Adding a product that is not in the cart twice gives one more line, with
  quantity 2.
\<close>

theorem addToCart_one_line_per_product:
  assumes "wellFormed h s" and "oneLinePerProduct (cartLines h s)"
    and "addToCart newItem (h, s) = (h', s')"
  shows "wellFormed h' s' \<and> oneLinePerProduct (cartLines h' s')
     \<and> cartLines h' s' = addLineWith (\<lambda>q. jadd q 1) newItem (cartLines h s)
     \<and> ((\<forall>l \<in> set (cartLines h s). cart_productId l = cart_productId newItem
             \<longrightarrow> safe_nat (cart_quantity l + 1))
          \<longrightarrow> cartLines h' s' = addLine newItem (cartLines h s))
     \<and> (cart_productId newItem \<notin> set (map cart_productId (cartLines h s))
          \<longrightarrow> cartLines (fst (addToCart newItem (h', s'))) (snd (addToCart newItem (h', s')))
                = cartLines h s @ [(newLine newItem)\<lparr>cart_quantity := 2\<rparr>])"
proof -
  let ?inc = "\<lambda>q. jadd q 1"
  from addToCart_lines [OF assms] have w: "wellFormed h' s'"
    and l: "cartLines h' s' = addLineWith ?inc newItem (cartLines h s)" by simp_all
  have d: "oneLinePerProduct (cartLines h' s')"
    using assms(2) by (simp add: oneLinePerProduct_def l addLineWith_ids)
  have e: "cartLines h' s' = addLine newItem (cartLines h s)"
    if "\<forall>l \<in> set (cartLines h s). cart_productId l = cart_productId newItem
             \<longrightarrow> safe_nat (cart_quantity l + 1)"
  proof -
    have "addLineWith ?inc newItem (cartLines h s) = addLineWith (\<lambda>q. q + 1) newItem (cartLines h s)"
      using that by (intro addLineWith_cong) (simp add: jadd_one)
    then show ?thesis by (simp add: l addLine_def)
  qed
  have t: "cartLines (fst (addToCart newItem (h', s'))) (snd (addToCart newItem (h', s')))
                = cartLines h s @ [(newLine newItem)\<lparr>cart_quantity := 2\<rparr>]"
    if n: "cart_productId newItem \<notin> set (map cart_productId (cartLines h s))"
  proof -
    have run2: "addToCart newItem (h', s') =
        (fst (addToCart newItem (h', s')), snd (addToCart newItem (h', s')))" by simp
    from addToCart_lines [OF w d run2]
    have "cartLines (fst (addToCart newItem (h', s'))) (snd (addToCart newItem (h', s'))) =
        addLineWith ?inc newItem (addLineWith ?inc newItem (cartLines h s))"
      by (simp add: l)
    also have "\<dots> = cartLines h s @ [(newLine newItem)\<lparr>cart_quantity := jadd 1 1\<rparr>]"
      by (rule addLineWith_twice [OF n])
    finally show ?thesis by (simp add: jadd_one_one)
  qed
  from w d l e t show ?thesis by blast
qed

theorem addToCart_one_line_per_product_witness:
  "cartLines (fst (addToCart cola (emptyHeap, emptyCart))) (snd (addToCart cola (emptyHeap, emptyCart)))
     = [newLine cola]
   \<and> cartLines (fst (addToCart cola (addToCart cola (emptyHeap, emptyCart))))
        (snd (addToCart cola (addToCart cola (emptyHeap, emptyCart))))
     = [(newLine cola)\<lparr>cart_quantity := 2\<rparr>]"
proof -
  have w: "wellFormed emptyHeap emptyCart" by code_simp
  have e: "cartLines emptyHeap emptyCart = []" by code_simp
  have d: "oneLinePerProduct (cartLines emptyHeap emptyCart)"
    by (simp add: e oneLinePerProduct_def)
  have run: "addToCart cola (emptyHeap, emptyCart) =
      (fst (addToCart cola (emptyHeap, emptyCart)), snd (addToCart cola (emptyHeap, emptyCart)))"
    by simp
  from addToCart_one_line_per_product [OF w d run] show ?thesis
    by (simp add: e)
qed

text \<open>
  C9. \<open>addToCart\<close> produces a new \<^verbatim>\<open>items\<close> array, and the array of the prior state keeps
  its elements, but the call is not pure: when the product is already in the cart,
  \<^verbatim>\<open>itemToUpdate.quantity += 1\<close> writes to the line object that the prior array shares
  with the new one. The holder of the prior state, whose cart had one line of quantity
  1, sees quantity 2 after the call.
\<close>

theorem addToCart_mutates_prior_state:
  "cartLines oneColaHeap oneColaCart = [(newLine cola)\<lparr>cart_quantity := 1\<rparr>]
   \<and> cartLines (fst (addToCart cola (oneColaHeap, oneColaCart))) oneColaCart
       = [(newLine cola)\<lparr>cart_quantity := 2\<rparr>]
   \<and> items (snd (addToCart cola (oneColaHeap, oneColaCart))) \<noteq> items oneColaCart
   \<and> readArray (fst (addToCart cola (oneColaHeap, oneColaCart))) (items oneColaCart)
       = readArray oneColaHeap (items oneColaCart)"
  by code_simp

end
